theory Spec2Isabelle
  imports Main "HOL-Library.AList"
begin

section \<open>Data model\<close>

text \<open>
  The repository module \<^verbatim>\<open>src/index.js\<close> loads two collections of JSON templates,
  \<^verbatim>\<open>'steps'\<close> and \<^verbatim>\<open>'workflows'\<close>. The only two values the exported functions ever
  pass as \<^verbatim>\<open>type\<close> are these two strings.
\<close>

datatype ctype = Steps | Workflows

fun type_name :: "ctype \<Rightarrow> string" where
  "type_name Steps = ''steps''"
| "type_name Workflows = ''workflows''"

text \<open>
  An item is a parsed JSON object. The module reads one field of it, \<^verbatim>\<open>item.id\<close>; the
  rest of the object is kept as an opaque payload. Identifiers are taken to be strings
  that are plain file-name stems (no path separator), as the mirror layout
  \<^verbatim>\<open><id>.json\<close> expects.
\<close>

datatype item = Item (item_id: string) (item_rest: string)

text \<open>
  The text of a file is abstracted by what \<^verbatim>\<open>JSON.parse\<close> makes of it: either it is
  the serialisation of an item, or it does not parse. \<^verbatim>\<open>JSON.stringify\<close> of an item
  that came out of \<^verbatim>\<open>JSON.parse\<close> gives a text that parses back to the item.
\<close>

datatype ftext = Json item | Garbage string

datatype exn =
    NetworkError
  | GitHubApiError nat string
  | ExpectedDirectoryListing string
  | ExpectedFileContent string
  | SyntaxError
  | FsError

fun JSON_parse :: "ftext \<Rightarrow> exn + item" where
  "JSON_parse (Json i) = Inr i"
| "JSON_parse (Garbage s) = Inl SyntaxError"

definition JSON_stringify :: "item \<Rightarrow> ftext" where
  "JSON_stringify i = Json i"

text \<open>\<^verbatim>\<open>String.prototype.endsWith\<close>.\<close>

definition endsWith :: "string \<Rightarrow> string \<Rightarrow> bool" where
  "endsWith s suf = (length suf \<le> length s \<and> drop (length s - length suf) s = suf)"

subsection \<open>Configuration and cache state\<close>

record config =
  repo :: string
  branch :: string
  token :: "string option"
  repoPath :: string
  cacheTTL :: int
  source :: string

text \<open>
  The module-level variables. \<^verbatim>\<open>null\<close> caches are \<open>None\<close>; an array, also an empty
  one, is truthy in JavaScript and is \<open>Some\<close>. Times are milliseconds.
\<close>

record mstate =
  config :: config
  stepsCache :: "item list option"
  workflowsCache :: "item list option"
  lastFetchTime :: int
  isFetching :: bool

text \<open>The configuration the module starts with when no environment variable is set.\<close>

definition default_config :: config where
  "default_config =
    \<lparr>repo = ''CEREMA/airjobs'', branch = ''main'', token = None,
     repoPath = ''src/repository'', cacheTTL = 300 * 1000, source = ''local''\<rparr>"

definition initial_state :: "config \<Rightarrow> mstate" where
  "initial_state c =
    \<lparr>config = c, stepsCache = None, workflowsCache = None, lastFetchTime = 0,
     isFetching = False\<rparr>"

subsection \<open>The environment: remote, file system, console\<close>

text \<open>
  An element of a directory listing. The module reads its \<^verbatim>\<open>name\<close> and its \<^verbatim>\<open>type\<close>,
  both taken to be strings.
\<close>

datatype entry = Entry (entry_name: string) (entry_type: string)

text \<open>
  What \<^verbatim>\<open>response.json()\<close> gives: an array of directory entries, or an object with a
  \<^verbatim>\<open>type\<close> and a \<^verbatim>\<open>content\<close> (absent or empty content is \<open>None\<close>; the content is kept
  after base64 decoding).
\<close>

datatype gh_json = JArray "entry list" | JObject string "ftext option"

record response =
  ok :: bool
  status :: nat
  statusText :: string
  json :: "exn + gh_json"

datatype store = MirrorStore | BundledStore

datatype fsop =
    Mkdir ctype
  | WriteFile ctype string
  | Readdir store ctype
  | ReadFile store ctype string

datatype logmsg =
    FailedToFetch ctype string
  | FailedToLoadFromGitHub ctype
  | UsingCached ctype
  | FallingBack ctype
  | FailedToSave ctype
  | FailedToLoad ctype string
  | FailedToReadLocalDir ctype

datatype event = Fetch string | Fs fsop | ExistsSync ctype | Console logmsg

text \<open>
  The world outside the module: the remote (what a GET of a URL with given headers
  answers), the mirror directory \<^verbatim>\<open>.cache/<type>\<close> and the bundled directory
  \<^verbatim>\<open><type>\<close> (each absent, or a list of named files), which file-system operations
  fail, and the trace of every I/O operation issued so far.
\<close>

record world =
  http :: "string \<Rightarrow> (string \<times> string) list \<Rightarrow> exn + response"
  mirror :: "ctype \<Rightarrow> (string \<times> ftext) list option"
  bundled :: "ctype \<Rightarrow> (string \<times> ftext) list option"
  fs_fails :: "fsop \<Rightarrow> bool"
  trace :: "event list"

definition emit :: "event \<Rightarrow> world \<Rightarrow> world" where
  "emit e w = w\<lparr>trace := trace w @ [e]\<rparr>"

definition store_dir :: "store \<Rightarrow> world \<Rightarrow> ctype \<Rightarrow> (string \<times> ftext) list option" where
  "store_dir s w ty = (case s of MirrorStore \<Rightarrow> mirror w ty | BundledStore \<Rightarrow> bundled w ty)"

text \<open>The Node primitives the module calls, as functions on the world.\<close>

definition fetch :: "string \<Rightarrow> (string \<times> string) list \<Rightarrow> world \<Rightarrow> (exn + response) \<times> world" where
  "fetch url headers w = (http w url headers, emit (Fetch url) w)"

definition existsSync :: "ctype \<Rightarrow> world \<Rightarrow> bool \<times> world" where
  "existsSync ty w = (mirror w ty \<noteq> None, emit (ExistsSync ty) w)"

definition readdir :: "store \<Rightarrow> ctype \<Rightarrow> world \<Rightarrow> (exn + string list) \<times> world" where
  "readdir s ty w =
    (let w1 = emit (Fs (Readdir s ty)) w in
     case store_dir s w ty of
       None \<Rightarrow> (Inl FsError, w1)
     | Some files \<Rightarrow>
         if fs_fails w (Readdir s ty) then (Inl FsError, w1) else (Inr (map fst files), w1))"

definition readFile :: "store \<Rightarrow> ctype \<Rightarrow> string \<Rightarrow> world \<Rightarrow> (exn + ftext) \<times> world" where
  "readFile s ty file w =
    (let w1 = emit (Fs (ReadFile s ty file)) w in
     if fs_fails w (ReadFile s ty file) then (Inl FsError, w1)
     else case store_dir s w ty of
       None \<Rightarrow> (Inl FsError, w1)
     | Some files \<Rightarrow>
         (case map_of files file of None \<Rightarrow> (Inl FsError, w1) | Some content \<Rightarrow> (Inr content, w1)))"

definition mkdir :: "ctype \<Rightarrow> world \<Rightarrow> (exn + unit) \<times> world" where
  "mkdir ty w =
    (let w1 = emit (Fs (Mkdir ty)) w in
     if fs_fails w (Mkdir ty) then (Inl FsError, w1)
     else (Inr (),
       w1\<lparr>mirror := (mirror w1)(ty := Some (case mirror w1 ty of None \<Rightarrow> [] | Some files \<Rightarrow> files))\<rparr>))"

definition writeFile :: "ctype \<Rightarrow> string \<Rightarrow> ftext \<Rightarrow> world \<Rightarrow> (exn + unit) \<times> world" where
  "writeFile ty file content w =
    (let w1 = emit (Fs (WriteFile ty file)) w in
     if fs_fails w (WriteFile ty file) then (Inl FsError, w1)
     else case mirror w1 ty of
       None \<Rightarrow> (Inl FsError, w1)
     | Some files \<Rightarrow>
         (Inr (), w1\<lparr>mirror := (mirror w1)(ty := Some (AList.update file content files))\<rparr>))"

definition console :: "logmsg \<Rightarrow> world \<Rightarrow> world" where
  "console m w = emit (Console m) w"

section \<open>Remote fetcher\<close>

definition github_url :: "config \<Rightarrow> string \<Rightarrow> string" where
  "github_url cfg path =
    ''https://api.github.com/repos/'' @ repo cfg @ ''/contents/'' @ path @ ''?ref='' @ branch cfg"

definition github_headers :: "config \<Rightarrow> (string \<times> string) list" where
  "github_headers cfg =
    [(''Accept'', ''application/vnd.github.v3+json''), (''User-Agent'', ''AirJobs-Repository-Sync'')]
    @ (case token cfg of
         None \<Rightarrow> []
       | Some t \<Rightarrow> if t \<noteq> [] then [(''Authorization'', ''token '' @ t)] else [])"

definition fetchFromGitHub :: "config \<Rightarrow> string \<Rightarrow> world \<Rightarrow> (exn + gh_json) \<times> world" where
  "fetchFromGitHub cfg path w =
    (case fetch (github_url cfg path) (github_headers cfg) w of
       (Inl e, w1) \<Rightarrow> (Inl e, w1)
     | (Inr response, w1) \<Rightarrow>
         if \<not> ok response then (Inl (GitHubApiError (status response) (statusText response)), w1)
         else (json response, w1))"

definition fetchGitHubDirectory :: "config \<Rightarrow> string \<Rightarrow> world \<Rightarrow> (exn + entry list) \<times> world" where
  "fetchGitHubDirectory cfg subPath w =
    (let fullPath = repoPath cfg @ ''/'' @ subPath in
     case fetchFromGitHub cfg fullPath w of
       (Inl e, w1) \<Rightarrow> (Inl e, w1)
     | (Inr (JArray contents), w1) \<Rightarrow> (Inr contents, w1)
     | (Inr (JObject ty content), w1) \<Rightarrow> (Inl (ExpectedDirectoryListing fullPath), w1))"

definition fetchGitHubFile :: "config \<Rightarrow> string \<Rightarrow> world \<Rightarrow> (exn + item) \<times> world" where
  "fetchGitHubFile cfg filePath w =
    (let fullPath = repoPath cfg @ ''/'' @ filePath in
     case fetchFromGitHub cfg fullPath w of
       (Inl e, w1) \<Rightarrow> (Inl e, w1)
     | (Inr (JArray contents), w1) \<Rightarrow> (Inl (ExpectedFileContent fullPath), w1)
     | (Inr (JObject ty None), w1) \<Rightarrow> (Inl (ExpectedFileContent fullPath), w1)
     | (Inr (JObject ty (Some content)), w1) \<Rightarrow>
         if ty \<noteq> ''file'' then (Inl (ExpectedFileContent fullPath), w1)
         else (JSON_parse content, w1))"

section \<open>Local mirror store\<close>

text \<open>
  The loop of \<^verbatim>\<open>saveToCacheDir\<close>. It runs inside the function's single
  \<^verbatim>\<open>try\<close>: the first \<^verbatim>\<open>writeFile\<close> that throws ends it (\<open>Inl\<close>).
\<close>

fun save_items :: "ctype \<Rightarrow> item list \<Rightarrow> world \<Rightarrow> (exn + unit) \<times> world" where
  "save_items ty [] w = (Inr (), w)"
| "save_items ty (i # items) w =
    (case writeFile ty (item_id i @ ''.json'') (JSON_stringify i) w of
       (Inl e, w1) \<Rightarrow> (Inl e, w1)
     | (Inr u, w1) \<Rightarrow> save_items ty items w1)"

definition saveToCacheDir :: "ctype \<Rightarrow> item list \<Rightarrow> world \<Rightarrow> world" where
  "saveToCacheDir ty items w =
    (case mkdir ty w of
       (Inl e, w1) \<Rightarrow> console (FailedToSave ty) w1
     | (Inr u, w1) \<Rightarrow>
         (case save_items ty items w1 of
            (Inl e, w2) \<Rightarrow> console (FailedToSave ty) w2
          | (Inr u', w2) \<Rightarrow> w2))"

text \<open>
  The loop of \<^verbatim>\<open>loadFromCacheDir\<close>, also inside one \<^verbatim>\<open>try\<close>: a \<^verbatim>\<open>readFile\<close> or a
  \<^verbatim>\<open>JSON.parse\<close> that throws ends it.
\<close>

fun read_cache_files :: "ctype \<Rightarrow> string list \<Rightarrow> item list \<Rightarrow> world \<Rightarrow> (exn + item list) \<times> world" where
  "read_cache_files ty [] items w = (Inr items, w)"
| "read_cache_files ty (file # files) items w =
    (if \<not> endsWith file ''.json'' then read_cache_files ty files items w
     else case readFile MirrorStore ty file w of
       (Inl e, w1) \<Rightarrow> (Inl e, w1)
     | (Inr content, w1) \<Rightarrow>
         (case JSON_parse content of
            Inl e \<Rightarrow> (Inl e, w1)
          | Inr i \<Rightarrow> read_cache_files ty files (items @ [i]) w1))"

definition loadFromCacheDir :: "ctype \<Rightarrow> world \<Rightarrow> item list option \<times> world" where
  "loadFromCacheDir ty w =
    (case existsSync ty w of
       (False, w1) \<Rightarrow> (None, w1)
     | (True, w1) \<Rightarrow>
         (case readdir MirrorStore ty w1 of
            (Inl e, w2) \<Rightarrow> (None, w2)
          | (Inr files, w2) \<Rightarrow>
              (case read_cache_files ty files [] w2 of
                 (Inl e, w3) \<Rightarrow> (None, w3)
               | (Inr items, w3) \<Rightarrow> (if length items > 0 then Some items else None, w3))))"

section \<open>Bundled defaults reader\<close>

fun read_local_files :: "ctype \<Rightarrow> string list \<Rightarrow> item list \<Rightarrow> world \<Rightarrow> item list \<times> world" where
  "read_local_files ty [] items w = (items, w)"
| "read_local_files ty (file # files) items w =
    (if \<not> endsWith file ''.json'' then read_local_files ty files items w
     else case readFile BundledStore ty file w of
       (Inl e, w1) \<Rightarrow> read_local_files ty files items (console (FailedToLoad ty file) w1)
     | (Inr content, w1) \<Rightarrow>
         (case JSON_parse content of
            Inl e \<Rightarrow> read_local_files ty files items (console (FailedToLoad ty file) w1)
          | Inr i \<Rightarrow> read_local_files ty files (items @ [i]) w1))"

definition loadFromLocal :: "ctype \<Rightarrow> world \<Rightarrow> item list \<times> world" where
  "loadFromLocal ty w =
    (case readdir BundledStore ty w of
       (Inl e, w1) \<Rightarrow> ([], console (FailedToReadLocalDir ty) w1)
     | (Inr files, w1) \<Rightarrow> read_local_files ty files [] w1)"

section \<open>Tiered loader\<close>

fun fetch_files :: "config \<Rightarrow> ctype \<Rightarrow> entry list \<Rightarrow> item list \<Rightarrow> world \<Rightarrow> item list \<times> world" where
  "fetch_files cfg ty [] items w = (items, w)"
| "fetch_files cfg ty (file # directory) items w =
    (if entry_type file = ''file'' \<and> endsWith (entry_name file) ''.json'' then
       (case fetchGitHubFile cfg (type_name ty @ ''/'' @ entry_name file) w of
          (Inr i, w1) \<Rightarrow> fetch_files cfg ty directory (items @ [i]) w1
        | (Inl e, w1) \<Rightarrow>
            fetch_files cfg ty directory items (console (FailedToFetch ty (entry_name file)) w1))
     else fetch_files cfg ty directory items w)"

definition loadFromGitHub :: "config \<Rightarrow> ctype \<Rightarrow> world \<Rightarrow> item list \<times> world" where
  "loadFromGitHub cfg ty w =
    (case fetchGitHubDirectory cfg (type_name ty) w of
       (Inr directory, w1) \<Rightarrow>
         (case fetch_files cfg ty directory [] w1 of
            (items, w2) \<Rightarrow> (items, saveToCacheDir ty items w2))
     | (Inl err, w1) \<Rightarrow>
         (case loadFromCacheDir ty (console (FailedToLoadFromGitHub ty) w1) of
            (Some cached, w2) \<Rightarrow> (cached, console (UsingCached ty) w2)
          | (None, w2) \<Rightarrow> loadFromLocal ty (console (FallingBack ty) w2)))"

definition isCacheStale :: "int \<Rightarrow> mstate \<Rightarrow> bool" where
  "isCacheStale now st = (now - lastFetchTime st > cacheTTL (config st))"

text \<open>
  \<^verbatim>\<open>loadWithCache\<close> is an \<^verbatim>\<open>async\<close> function. Up to its first \<^verbatim>\<open>await\<close> it runs without
  interruption: the two early returns and the setting of \<^verbatim>\<open>isFetching\<close>
  (\<open>loadWithCache_enter\<close>, at time \<open>now\<close>). Then the selected source is read
  (\<open>loadWithCache_body\<close>), during which other callers may run. When the body is done,
  at a later time, the timestamp is set and the \<^verbatim>\<open>finally\<close> clause clears the flag
  (\<open>loadWithCache_exit\<close>); the clause runs also when the body throws.
\<close>

datatype outcome = Return "item list" | Proceed

definition loadWithCache_enter :: "item list option \<Rightarrow> int \<Rightarrow> mstate \<Rightarrow> outcome \<times> mstate" where
  "loadWithCache_enter cache now st =
    (let guarded =
       (if isFetching st then (Return (case cache of Some c \<Rightarrow> c | None \<Rightarrow> []), st)
        else (Proceed, st\<lparr>isFetching := True\<rparr>))
     in case cache of
       None \<Rightarrow> guarded
     | Some c \<Rightarrow> if \<not> isCacheStale now st then (Return c, st) else guarded)"

definition loadWithCache_body :: "ctype \<Rightarrow> config \<Rightarrow> world \<Rightarrow> (exn + item list) \<times> world" where
  "loadWithCache_body ty cfg w =
    (if source cfg = ''github'' then
       (case loadFromGitHub cfg ty w of (items, w1) \<Rightarrow> (Inr items, w1))
     else
       (case loadFromLocal ty w of (items, w1) \<Rightarrow> (Inr items, w1)))"

definition loadWithCache_exit :: "exn + item list \<Rightarrow> int \<Rightarrow> mstate \<Rightarrow> (exn + item list) \<times> mstate" where
  "loadWithCache_exit r now st =
    (case r of
       Inr items \<Rightarrow> (Inr items, st\<lparr>lastFetchTime := now, isFetching := False\<rparr>)
     | Inl e \<Rightarrow> (Inl e, st\<lparr>isFetching := False\<rparr>))"

text \<open>
  A call that no other caller interleaves with: it starts at \<open>t0\<close> and its body is done
  at \<open>t1\<close>.
\<close>

definition loadWithCache ::
  "ctype \<Rightarrow> item list option \<Rightarrow> int \<times> int \<Rightarrow> mstate \<times> world \<Rightarrow> (exn + item list) \<times> mstate \<times> world" where
  "loadWithCache ty cache ts sw =
    (case (ts, sw) of ((t0, t1), (st, w)) \<Rightarrow>
      (case loadWithCache_enter cache t0 st of
         (Return items, st1) \<Rightarrow> (Inr items, st1, w)
       | (Proceed, st1) \<Rightarrow>
           (case loadWithCache_body ty (config st1) w of
              (r, w1) \<Rightarrow> (case loadWithCache_exit r t1 st1 of (r1, st2) \<Rightarrow> (r1, st2, w1)))))"

definition loadSteps :: "int \<times> int \<Rightarrow> mstate \<times> world \<Rightarrow> (exn + item list) \<times> mstate \<times> world" where
  "loadSteps ts sw =
    (case loadWithCache Steps (stepsCache (fst sw)) ts sw of
       (Inr items, st1, w1) \<Rightarrow> (Inr items, st1\<lparr>stepsCache := Some items\<rparr>, w1)
     | (Inl e, st1, w1) \<Rightarrow> (Inl e, st1, w1))"

definition loadWorkflows :: "int \<times> int \<Rightarrow> mstate \<times> world \<Rightarrow> (exn + item list) \<times> mstate \<times> world" where
  "loadWorkflows ts sw =
    (case loadWithCache Workflows (workflowsCache (fst sw)) ts sw of
       (Inr items, st1, w1) \<Rightarrow> (Inr items, st1\<lparr>workflowsCache := Some items\<rparr>, w1)
     | (Inl e, st1, w1) \<Rightarrow> (Inl e, st1, w1))"

text \<open>The two entry points, by collection type.\<close>

fun load :: "ctype \<Rightarrow> int \<times> int \<Rightarrow> mstate \<times> world \<Rightarrow> (exn + item list) \<times> mstate \<times> world" where
  "load Steps = loadSteps"
| "load Workflows = loadWorkflows"

fun cache_of :: "ctype \<Rightarrow> mstate \<Rightarrow> item list option" where
  "cache_of Steps st = stepsCache st"
| "cache_of Workflows st = workflowsCache st"

section \<open>Accessors\<close>

text \<open>
  The argument of \<^verbatim>\<open>updateConfig\<close>: every field may be absent (\<open>None\<close>). A token may
  also be given as \<^verbatim>\<open>null\<close> (\<open>Some None\<close>). The TTL is given in seconds.
\<close>

record newConfig =
  new_repo :: "string option"
  new_branch :: "string option"
  new_token :: "string option option"
  new_repoPath :: "string option"
  new_cacheTTL :: "int option"
  new_source :: "string option"

text \<open>
  \<^verbatim>\<open>if (newConfig.f) config.f = newConfig.f\<close>: the assignment happens when the given
  value is truthy, that is a non-empty string, or a non-zero number.
\<close>

definition assign_string :: "string option \<Rightarrow> string \<Rightarrow> string" where
  "assign_string given old = (case given of None \<Rightarrow> old | Some s \<Rightarrow> if s \<noteq> [] then s else old)"

definition assign_token :: "string option option \<Rightarrow> string option \<Rightarrow> string option" where
  "assign_token given old =
    (case given of
       None \<Rightarrow> old
     | Some None \<Rightarrow> old
     | Some (Some s) \<Rightarrow> if s \<noteq> [] then Some s else old)"

definition assign_ttl :: "int option \<Rightarrow> int \<Rightarrow> int" where
  "assign_ttl given old = (case given of None \<Rightarrow> old | Some n \<Rightarrow> if n \<noteq> 0 then n * 1000 else old)"

definition updateConfig :: "newConfig \<Rightarrow> mstate \<Rightarrow> mstate" where
  "updateConfig newConfig st =
    st\<lparr>config :=
         \<lparr>repo = assign_string (new_repo newConfig) (repo (config st)),
          branch = assign_string (new_branch newConfig) (branch (config st)),
          token = assign_token (new_token newConfig) (token (config st)),
          repoPath = assign_string (new_repoPath newConfig) (repoPath (config st)),
          cacheTTL = assign_ttl (new_cacheTTL newConfig) (cacheTTL (config st)),
          source = assign_string (new_source newConfig) (source (config st))\<rparr>,
       stepsCache := None,
       workflowsCache := None,
       lastFetchTime := 0\<rparr>"

text \<open>The first three statements of \<^verbatim>\<open>refreshCache\<close>, before it reloads both collections.\<close>

definition clearCache :: "mstate \<Rightarrow> mstate" where
  "clearCache st = st\<lparr>stepsCache := None, workflowsCache := None, lastFetchTime := 0\<rparr>"

section \<open>Interleaved callers\<close>

text \<open>
  The module runs on one thread; callers interleave at the \<^verbatim>\<open>await\<close>s only. A run of
  the module is a sequence of actions: a caller enters \<^verbatim>\<open>loadSteps\<close> or
  \<^verbatim>\<open>loadWorkflows\<close> at some time (and either returns at once or starts a fetch, which
  is then in flight), the oldest fetch in flight completes at some time, the
  configuration is updated, the caches are cleared. The reads and writes of a fetch
  are taken at the moment the fetch starts, against the configuration of that moment.
\<close>

record sys =
  ms :: mstate
  wd :: world
  inflight :: "(ctype \<times> (exn + item list)) list"

datatype action = CallLoad ctype int | Complete int | UpdateConfig newConfig | ClearCache

fun set_cache :: "ctype \<Rightarrow> item list \<Rightarrow> mstate \<Rightarrow> mstate" where
  "set_cache Steps items st = st\<lparr>stepsCache := Some items\<rparr>"
| "set_cache Workflows items st = st\<lparr>workflowsCache := Some items\<rparr>"

fun step :: "action \<Rightarrow> sys \<Rightarrow> sys" where
  "step (CallLoad ty now) s =
    (case loadWithCache_enter (cache_of ty (ms s)) now (ms s) of
       (Return items, st1) \<Rightarrow> s\<lparr>ms := set_cache ty items st1\<rparr>
     | (Proceed, st1) \<Rightarrow>
         (case loadWithCache_body ty (config st1) (wd s) of
            (r, w1) \<Rightarrow> s\<lparr>ms := st1, wd := w1, inflight := inflight s @ [(ty, r)]\<rparr>))"
| "step (Complete now) s =
    (case inflight s of
       [] \<Rightarrow> s
     | (ty, r) # rest \<Rightarrow>
         (case loadWithCache_exit r now (ms s) of
            (Inr items, st1) \<Rightarrow> s\<lparr>ms := set_cache ty items st1, inflight := rest\<rparr>
          | (Inl e, st1) \<Rightarrow> s\<lparr>ms := st1, inflight := rest\<rparr>))"
| "step (UpdateConfig newConfig) s = s\<lparr>ms := updateConfig newConfig (ms s)\<rparr>"
| "step ClearCache s = s\<lparr>ms := clearCache (ms s)\<rparr>"

definition run :: "action list \<Rightarrow> sys \<Rightarrow> sys" where
  "run acts s = fold step acts s"

definition start :: "config \<Rightarrow> world \<Rightarrow> sys" where
  "start c w = \<lparr>ms = initial_state c, wd = w, inflight = []\<rparr>"

section \<open>The trace, read by kind of operation\<close>

fun fetched_urls :: "event list \<Rightarrow> string list" where
  "fetched_urls [] = []"
| "fetched_urls (Fetch u # es) = u # fetched_urls es"
| "fetched_urls (e # es) = fetched_urls es"

fun mirror_writes :: "event list \<Rightarrow> fsop list" where
  "mirror_writes [] = []"
| "mirror_writes (Fs (Mkdir ty) # es) = Mkdir ty # mirror_writes es"
| "mirror_writes (Fs (WriteFile ty f) # es) = WriteFile ty f # mirror_writes es"
| "mirror_writes (e # es) = mirror_writes es"

text \<open>The URL of the directory listing of a collection, and how often a trace fetched it.\<close>

definition listing_url :: "config \<Rightarrow> ctype \<Rightarrow> string" where
  "listing_url cfg ty = github_url cfg (repoPath cfg @ ''/'' @ type_name ty)"

definition listing_calls :: "config \<Rightarrow> ctype \<Rightarrow> event list \<Rightarrow> nat" where
  "listing_calls cfg ty es = count_list (fetched_urls es) (listing_url cfg ty)"

section \<open>Vocabulary of the statements\<close>

text \<open>
  Two worlds related by a run that only read: the environment and the mirror are the
  same and the trace gained no \<^verbatim>\<open>mkdir\<close> or \<^verbatim>\<open>writeFile\<close>. And by a run that made no
  request to the remote.
\<close>

definition reads_only :: "world \<Rightarrow> world \<Rightarrow> bool" where
  "reads_only w w' =
    (http w' = http w \<and> mirror w' = mirror w \<and> bundled w' = bundled w \<and> fs_fails w' = fs_fails w \<and>
     mirror_writes (trace w') = mirror_writes (trace w))"

definition no_fetch :: "world \<Rightarrow> world \<Rightarrow> bool" where
  "no_fetch w w' = (fetched_urls (trace w') = fetched_urls (trace w))"

text \<open>A run that touched the local disk only.\<close>

definition local_io :: "world \<Rightarrow> world \<Rightarrow> bool" where
  "local_io w w' =
    (http w' = http w \<and> bundled w' = bundled w \<and> fs_fails w' = fs_fails w \<and>
     fetched_urls (trace w') = fetched_urls (trace w))"

text \<open>
  Single flight: at most one fetch is in flight, and the flag \<^verbatim>\<open>isFetching\<close> is set
  exactly while one is.
\<close>

definition single_flight :: "sys \<Rightarrow> bool" where
  "single_flight s = (length (inflight s) \<le> 1 \<and> (isFetching (ms s) = (inflight s \<noteq> [])))"

text \<open>\<^verbatim>\<open>cache || []\<close>\<close>

definition or_empty :: "item list option \<Rightarrow> item list" where
  "or_empty cache = (case cache of Some c \<Rightarrow> c | None \<Rightarrow> [])"

text \<open>
  The mirror, declaratively. The \<^verbatim>\<open>.json\<close> names of a directory; the item a mirror
  file gives when it can be read and parses; the files on disk after a list of items
  was written, each to \<^verbatim>\<open><id>.json\<close>; and the items of a batch written before the
  first write that fails.
\<close>

definition json_names :: "(string \<times> ftext) list \<Rightarrow> string list" where
  "json_names files = filter (\<lambda>f. endsWith f ''.json'') (map fst files)"

definition mirror_file_item :: "world \<Rightarrow> ctype \<Rightarrow> string \<Rightarrow> item option" where
  "mirror_file_item w ty f =
    (if fs_fails w (ReadFile MirrorStore ty f) then None
     else case mirror w ty of
       None \<Rightarrow> None
     | Some files \<Rightarrow>
         (case map_of files f of
            None \<Rightarrow> None
          | Some content \<Rightarrow> (case JSON_parse content of Inl e \<Rightarrow> None | Inr i \<Rightarrow> Some i)))"

definition put_items :: "item list \<Rightarrow> (string \<times> ftext) list \<Rightarrow> (string \<times> ftext) list" where
  "put_items items files =
    fold (\<lambda>i. AList.update (item_id i @ ''.json'') (JSON_stringify i)) items files"

definition written_prefix :: "world \<Rightarrow> ctype \<Rightarrow> item list \<Rightarrow> item list" where
  "written_prefix w ty items =
    takeWhile (\<lambda>i. \<not> fs_fails w (WriteFile ty (item_id i @ ''.json''))) items"

definition dir_files :: "(string \<times> ftext) list option \<Rightarrow> (string \<times> ftext) list" where
  "dir_files d = (case d of None \<Rightarrow> [] | Some files \<Rightarrow> files)"




text \<open>Loads one after the other, none interleaved.\<close>

fun loads :: "(ctype \<times> int \<times> int) list \<Rightarrow> mstate \<times> world \<Rightarrow> mstate \<times> world" where
  "loads [] sw = sw"
| "loads ((ty, ts) # calls) sw = loads calls (snd (load ty ts sw))"

text \<open>
  The items a mirror directory holds: those of its \<^verbatim>\<open>.json\<close> files whose text is the
  serialisation of an item, in the order of the directory. And a mirror directory that
  is intact: it exists, no two files share a name, it can be listed, and every
  \<^verbatim>\<open>.json\<close> file in it can be read and holds an item.
\<close>

definition mirror_items :: "(string \<times> ftext) list \<Rightarrow> item list" where
  "mirror_items files =
    concat (map (\<lambda>(f, c).
      if endsWith f ''.json'' then (case c of Json i \<Rightarrow> [i] | Garbage s \<Rightarrow> []) else []) files)"

definition mirror_intact :: "world \<Rightarrow> ctype \<Rightarrow> (string \<times> ftext) list \<Rightarrow> bool" where
  "mirror_intact w ty files =
    (mirror w ty = Some files \<and> distinct (map fst files) \<and>
     \<not> fs_fails w (Readdir MirrorStore ty) \<and>
     (\<forall>(f, c) \<in> set files. endsWith f ''.json'' \<longrightarrow>
        \<not> fs_fails w (ReadFile MirrorStore ty f) \<and> (\<exists>i. c = Json i)))"

section \<open>Concrete scenarios\<close>

text \<open>
  A remote whose \<^verbatim>\<open>steps\<close> directory lists \<^verbatim>\<open>a.json\<close>, \<^verbatim>\<open>README.md\<close> and
  \<^verbatim>\<open>copy.json\<close>; the two JSON files hold items with the same id. No mirror yet;
  one bundled step.
\<close>

definition demo_a :: item where "demo_a = Item ''a'' ''first''"
definition demo_a2 :: item where "demo_a2 = Item ''a'' ''second''"
definition demo_b :: item where "demo_b = Item ''b'' ''bundled''"

definition demo_config :: config where
  "demo_config = default_config\<lparr>source := ''github''\<rparr>"

definition ok_response :: "gh_json \<Rightarrow> response" where
  "ok_response j = \<lparr>ok = True, status = 200, statusText = ''OK'', json = Inr j\<rparr>"

definition demo_http :: "string \<Rightarrow> (string \<times> string) list \<Rightarrow> exn + response" where
  "demo_http url headers =
    (if url = ''https://api.github.com/repos/CEREMA/airjobs/contents/src/repository/steps?ref=main''
     then Inr (ok_response (JArray [Entry ''a.json'' ''file'', Entry ''README.md'' ''file'', Entry ''copy.json'' ''file'']))
     else if url = ''https://api.github.com/repos/CEREMA/airjobs/contents/src/repository/steps/a.json?ref=main''
     then Inr (ok_response (JObject ''file'' (Some (Json demo_a))))
     else if url = ''https://api.github.com/repos/CEREMA/airjobs/contents/src/repository/steps/copy.json?ref=main''
     then Inr (ok_response (JObject ''file'' (Some (Json demo_a2))))
     else Inl NetworkError)"

definition demo_world :: world where
  "demo_world =
    \<lparr>http = demo_http, mirror = (\<lambda>ty. None),
     bundled = (\<lambda>ty. if ty = Steps then Some [(''b.json'', Json demo_b)] else None),
     fs_fails = (\<lambda>op. False), trace = []\<rparr>"

text \<open>The state and the world after \<^verbatim>\<open>loadSteps\<close> ran from 1000 ms to 1200 ms.\<close>

definition demo_loaded :: mstate where
  "demo_loaded =
    \<lparr>config = demo_config, stepsCache = Some [demo_a, demo_a2], workflowsCache = None,
     lastFetchTime = 1200, isFetching = False\<rparr>"

definition demo_mirrored :: world where
  "demo_mirrored =
    \<lparr>http = demo_http, mirror = (\<lambda>ty. None)(Steps := Some [(''a.json'', Json demo_a2)]),
     bundled = (\<lambda>ty. if ty = Steps then Some [(''b.json'', Json demo_b)] else None),
     fs_fails = (\<lambda>op. False),
     trace =
       [Fetch ''https://api.github.com/repos/CEREMA/airjobs/contents/src/repository/steps?ref=main'',
        Fetch ''https://api.github.com/repos/CEREMA/airjobs/contents/src/repository/steps/a.json?ref=main'',
        Fetch ''https://api.github.com/repos/CEREMA/airjobs/contents/src/repository/steps/copy.json?ref=main'',
        Fs (Mkdir Steps), Fs (WriteFile Steps ''a.json''), Fs (WriteFile Steps ''a.json'')]\<rparr>"

text \<open>The same world, later, with the remote unreachable.\<close>

definition demo_offline :: world where
  "demo_offline = demo_mirrored\<lparr>http := (\<lambda>url headers. Inl NetworkError)\<rparr>"

text \<open>A caller entered \<^verbatim>\<open>loadSteps\<close> at 1000 ms and its fetch is in flight.\<close>

definition demo_busy :: mstate where
  "demo_busy = (initial_state demo_config)\<lparr>isFetching := True\<rparr>"

definition demo_inflight :: sys where
  "demo_inflight = step (CallLoad Steps 1000) (start demo_config demo_world)"

text \<open>A populated steps entry fetched at 1200 ms, under a TTL of zero.\<close>

definition demo_ttl0 :: mstate where
  "demo_ttl0 =
    \<lparr>config = demo_config\<lparr>cacheTTL := 0\<rparr>, stepsCache = Some [demo_a], workflowsCache = None,
     lastFetchTime = 1200, isFetching = False\<rparr>"

text \<open>
  A workflows entry fetched at time 0 and no steps entry yet; the clock reads
  400000 ms, past the TTL of 300000 ms.
\<close>

definition demo_stale :: mstate where
  "demo_stale =
    \<lparr>config = demo_config, stepsCache = None, workflowsCache = Some [demo_b],
     lastFetchTime = 0, isFetching = False\<rparr>"

text \<open>Arguments of \<^verbatim>\<open>updateConfig\<close>.\<close>

definition no_change :: newConfig where
  "no_change =
    \<lparr>new_repo = None, new_branch = None, new_token = None, new_repoPath = None,
     new_cacheTTL = None, new_source = None\<rparr>"

definition demo_secret :: mstate where
  "demo_secret = demo_loaded\<lparr>config := demo_config\<lparr>token := Some ''secret''\<rparr>\<rparr>"

definition demo_new_config :: newConfig where
  "demo_new_config =
    \<lparr>new_repo = Some ''acme/templates'', new_branch = None, new_token = Some (Some ''t0k''),
     new_repoPath = None, new_cacheTTL = Some 60, new_source = Some ''local''\<rparr>"

text \<open>A mirror with one parsable step, one malformed \<^verbatim>\<open>.json\<close> file and a text file.\<close>

definition demo_damaged :: world where
  "demo_damaged =
    demo_world\<lparr>mirror := (\<lambda>ty. None)
      (Steps := Some [(''a.json'', Json demo_a), (''bad.json'', Garbage ''{''),
                      (''notes.txt'', Garbage ''hello'')])\<rparr>"

text \<open>A disk on which \<^verbatim>\<open>steps/a.json\<close> cannot be written; every other write succeeds.\<close>

definition demo_failing :: world where
  "demo_failing = demo_world\<lparr>fs_fails := (\<lambda>op. op = WriteFile Steps ''a.json'')\<rparr>"

text \<open>
  The state and the world after \<^verbatim>\<open>loadSteps\<close> ran from 400000 ms to 400100 ms with the
  remote unreachable: the entry is served from the mirror.
\<close>

definition demo_fallen_back :: mstate where
  "demo_fallen_back = demo_loaded\<lparr>stepsCache := Some [demo_a2], lastFetchTime := 400100\<rparr>"

definition demo_offline_after :: world where
  "demo_offline_after =
    demo_offline\<lparr>trace := trace demo_offline @
      [Fetch ''https://api.github.com/repos/CEREMA/airjobs/contents/src/repository/steps?ref=main'',
       Console (FailedToLoadFromGitHub Steps), ExistsSync Steps, Fs (Readdir MirrorStore Steps),
       Fs (ReadFile MirrorStore Steps ''a.json''), Console (UsingCached Steps)]\<rparr>"

text \<open>The listing the remote gives for \<^verbatim>\<open>steps\<close>.\<close>

definition demo_listing :: "entry list" where
  "demo_listing = [Entry ''a.json'' ''file'', Entry ''README.md'' ''file'', Entry ''copy.json'' ''file'']"

text \<open>A disk on which the mirror directory of the steps cannot be created.\<close>

definition demo_no_mkdir :: world where
  "demo_no_mkdir = demo_world\<lparr>fs_fails := (\<lambda>op. op = Mkdir Steps)\<rparr>"

text \<open>The damaged mirror, with the remote unreachable.\<close>

definition demo_damaged_offline :: world where
  "demo_damaged_offline = demo_damaged\<lparr>http := (\<lambda>url headers. Inl NetworkError)\<rparr>"

text \<open>
  A caller entered \<^verbatim>\<open>loadSteps\<close> at 1000 ms; while its fetch was in flight the source
  was reconfigured to local; the fetch was done at 1200 ms.
\<close>

definition demo_reconfigured :: sys where
  "demo_reconfigured =
    run [CallLoad Steps 1000, UpdateConfig (no_change\<lparr>new_source := Some ''local''\<rparr>), Complete 1200]
      (start demo_config demo_world)"

section \<open>Basic facts about the environment\<close>

lemma emit_sel [simp]:
  "http (emit e w) = http w" "mirror (emit e w) = mirror w" "bundled (emit e w) = bundled w"
  "fs_fails (emit e w) = fs_fails w" "trace (emit e w) = trace w @ [e]"
  by (simp_all add: emit_def)

lemma console_sel [simp]:
  "http (console m w) = http w" "mirror (console m w) = mirror w" "bundled (console m w) = bundled w"
  "fs_fails (console m w) = fs_fails w" "trace (console m w) = trace w @ [Console m]"
  by (simp_all add: console_def)

lemma store_dir_emit [simp]: "store_dir s (emit e w) = store_dir s w"
  by (auto simp: store_dir_def fun_eq_iff split: store.splits)

lemma store_dir_console [simp]: "store_dir s (console m w) = store_dir s w"
  by (simp add: console_def)

lemma fetched_urls_append [simp]: "fetched_urls (xs @ ys) = fetched_urls xs @ fetched_urls ys"
  by (induction xs rule: fetched_urls.induct) simp_all

lemma mirror_writes_append [simp]: "mirror_writes (xs @ ys) = mirror_writes xs @ mirror_writes ys"
  by (induction xs rule: mirror_writes.induct) simp_all

text \<open>What each primitive does to the world.\<close>

lemma snd_fetch [simp]: "snd (fetch url hs w) = emit (Fetch url) w"
  by (simp add: fetch_def)

lemma snd_existsSync [simp]: "snd (existsSync ty w) = emit (ExistsSync ty) w"
  by (simp add: existsSync_def)

lemma snd_readdir [simp]: "snd (readdir s ty w) = emit (Fs (Readdir s ty)) w"
  by (simp add: readdir_def Let_def split: option.splits)

lemma snd_readFile [simp]: "snd (readFile s ty f w) = emit (Fs (ReadFile s ty f)) w"
  by (simp add: readFile_def Let_def split: option.splits)

lemma snd_fetchFromGitHub [simp]:
  "snd (fetchFromGitHub cfg path w) = emit (Fetch (github_url cfg path)) w"
  by (simp add: fetchFromGitHub_def fetch_def split: sum.splits)

lemma fetchFromGitHub_world:
  "fetchFromGitHub cfg path w = (r, w1) \<Longrightarrow> w1 = emit (Fetch (github_url cfg path)) w"
  using snd_fetchFromGitHub [of cfg path w] by simp

lemma snd_fetchGitHubDirectory [simp]:
  "snd (fetchGitHubDirectory cfg sub w) = emit (Fetch (github_url cfg (repoPath cfg @ ''/'' @ sub))) w"
  by (auto simp add: fetchGitHubDirectory_def Let_def split: prod.splits sum.splits gh_json.splits
      dest!: fetchFromGitHub_world)

lemma snd_fetchGitHubFile [simp]:
  "snd (fetchGitHubFile cfg p w) = emit (Fetch (github_url cfg (repoPath cfg @ ''/'' @ p))) w"
  by (auto simp add: fetchGitHubFile_def Let_def split: prod.splits sum.splits gh_json.splits option.splits
      dest!: fetchFromGitHub_world)



lemma fst_readFile_cong:
  "store_dir s w' = store_dir s w \<Longrightarrow> fs_fails w' = fs_fails w \<Longrightarrow>
   fst (readFile s ty f w') = fst (readFile s ty f w)"
  by (simp add: readFile_def Let_def split: option.splits)


lemma readFile_world:
  "readFile s ty f w = (r, w1) \<Longrightarrow> w1 = emit (Fs (ReadFile s ty f)) w"
  using snd_readFile [of s ty f w] by simp

lemma readdir_world:
  "readdir s ty w = (r, w1) \<Longrightarrow> w1 = emit (Fs (Readdir s ty)) w"
  using snd_readdir [of s ty w] by simp

lemma fetchGitHubFile_world:
  "fetchGitHubFile cfg p w = (r, w1) \<Longrightarrow> w1 = emit (Fetch (github_url cfg (repoPath cfg @ ''/'' @ p))) w"
  using snd_fetchGitHubFile [of cfg p w] by simp

lemma fetchGitHubDirectory_world:
  "fetchGitHubDirectory cfg sub w = (r, w1) \<Longrightarrow>
   w1 = emit (Fetch (github_url cfg (repoPath cfg @ ''/'' @ sub))) w"
  using snd_fetchGitHubDirectory [of cfg sub w] by simp

lemma reads_only_read_cache_files:
  "read_cache_files ty fs acc w = (r, w1) \<Longrightarrow> reads_only w w1 \<and> no_fetch w w1"
proof (induction fs arbitrary: acc w)
  case Nil
  then show ?case by (simp add: reads_only_def no_fetch_def)
next
  case (Cons f fs)
  from Cons.prems show ?case
    by (auto simp add: reads_only_def no_fetch_def split: if_splits prod.splits sum.splits
        dest!: readFile_world Cons.IH)
qed

lemma reads_only_read_local_files:
  "read_local_files ty fs acc w = (r, w1) \<Longrightarrow> reads_only w w1 \<and> no_fetch w w1"
proof (induction fs arbitrary: acc w)
  case Nil
  then show ?case by (simp add: reads_only_def no_fetch_def)
next
  case (Cons f fs)
  from Cons.prems show ?case
    by (auto simp add: reads_only_def no_fetch_def split: if_splits prod.splits sum.splits
        dest!: readFile_world Cons.IH)
qed

lemma reads_only_loadFromCacheDir:
  "loadFromCacheDir ty w = (r, w1) \<Longrightarrow> reads_only w w1 \<and> no_fetch w w1"
  by (auto simp add: loadFromCacheDir_def existsSync_def reads_only_def no_fetch_def
      split: prod.splits sum.splits bool.splits if_splits
      dest!: readdir_world reads_only_read_cache_files)

lemma reads_only_loadFromLocal:
  "loadFromLocal ty w = (r, w1) \<Longrightarrow> reads_only w w1 \<and> no_fetch w w1"
  by (auto simp add: loadFromLocal_def reads_only_def no_fetch_def
      split: prod.splits sum.splits dest!: readdir_world reads_only_read_local_files)


lemma mkdir_world:
  "mkdir ty w = (r, w1) \<Longrightarrow>
   local_io w w1 \<and> mirror_writes (trace w1) = mirror_writes (trace w) @ [Mkdir ty] \<and>
   (\<forall>ty'. ty' \<noteq> ty \<longrightarrow> mirror w1 ty' = mirror w ty')"
  by (auto simp add: mkdir_def Let_def local_io_def split: if_splits)

lemma writeFile_world:
  "writeFile ty f c w = (r, w1) \<Longrightarrow>
   local_io w w1 \<and> mirror_writes (trace w1) = mirror_writes (trace w) @ [WriteFile ty f] \<and>
   (\<forall>ty'. ty' \<noteq> ty \<longrightarrow> mirror w1 ty' = mirror w ty')"
  by (auto simp add: writeFile_def Let_def local_io_def split: if_splits option.splits)

lemma save_items_local_io:
  "save_items ty items w = (r, w1) \<Longrightarrow> local_io w w1"
proof (induction items arbitrary: w)
  case Nil
  then show ?case by (simp add: local_io_def)
next
  case (Cons i items)
  from Cons.prems show ?case
    by (auto simp add: local_io_def split: prod.splits sum.splits dest!: writeFile_world Cons.IH)
qed

lemma saveToCacheDir_local_io: "local_io w (saveToCacheDir ty items w)"
  by (auto simp add: saveToCacheDir_def local_io_def split: prod.splits sum.splits
      dest!: mkdir_world save_items_local_io)

lemma listing_calls_append:
  "listing_calls cfg ty (es @ es') = listing_calls cfg ty es + listing_calls cfg ty es'"
  by (simp add: listing_calls_def)

lemma listing_calls_Nil: "listing_calls cfg ty [] = 0"
  by (simp add: listing_calls_def)

lemma listing_calls_Cons:
  "listing_calls cfg ty (e # es) =
   (if e = Fetch (listing_url cfg ty) then 1 else 0) + listing_calls cfg ty es"
  by (cases e) (simp_all add: listing_calls_def)

lemmas listing_calls_snoc = listing_calls_append listing_calls_Cons listing_calls_Nil

lemma file_url_neq_listing_url:
  "github_url cfg (repoPath cfg @ ''/'' @ type_name ty @ ''/'' @ f) \<noteq> listing_url cfg ty"
  by (simp add: github_url_def listing_url_def)

lemma fetch_files_listing_calls:
  "fetch_files cfg ty dir acc w = (r, w1) \<Longrightarrow>
   listing_calls cfg ty (trace w1) = listing_calls cfg ty (trace w)"
proof (induction dir arbitrary: acc w)
  case Nil
  then show ?case by simp
next
  case (Cons f dir)
  from Cons.prems show ?case
    using file_url_neq_listing_url [of cfg ty "entry_name f"]
    by (auto simp add: listing_calls_snoc split: if_splits prod.splits sum.splits
        dest!: fetchGitHubFile_world Cons.IH)
qed

lemma no_fetch_listing_calls:
  "no_fetch w w1 \<Longrightarrow> listing_calls cfg ty (trace w1) = listing_calls cfg ty (trace w)"
  by (simp add: no_fetch_def listing_calls_def)

lemma local_io_listing_calls:
  "local_io w w1 \<Longrightarrow> listing_calls cfg ty (trace w1) = listing_calls cfg ty (trace w)"
  by (simp add: local_io_def listing_calls_def)

lemma loadFromGitHub_listing_calls:
  "loadFromGitHub cfg ty w = (r, w1) \<Longrightarrow>
   listing_calls cfg ty (trace w1) = listing_calls cfg ty (trace w) + 1"
proof -
  assume a: "loadFromGitHub cfg ty w = (r, w1)"
  let ?w0 = "emit (Fetch (listing_url cfg ty)) w"
  have l0: "listing_calls cfg ty (trace ?w0) = listing_calls cfg ty (trace w) + 1"
    by (simp add: listing_calls_snoc)
  obtain d wd where d: "fetchGitHubDirectory cfg (type_name ty) w = (d, wd)"
    by (cases "fetchGitHubDirectory cfg (type_name ty) w")
  then have wd: "wd = ?w0"
    by (auto dest!: fetchGitHubDirectory_world simp: listing_url_def)
  show ?thesis
  proof (cases d)
    case (Inr directory)
    obtain items w2 where f: "fetch_files cfg ty directory [] wd = (items, w2)"
      by (cases "fetch_files cfg ty directory [] wd")
    have "w1 = saveToCacheDir ty items w2"
      using a d Inr f by (auto simp add: loadFromGitHub_def)
    then have "listing_calls cfg ty (trace w1) = listing_calls cfg ty (trace w2)"
      using saveToCacheDir_local_io [of w2 ty items] by (simp add: local_io_listing_calls)
    also have "\<dots> = listing_calls cfg ty (trace wd)"
      using f by (rule fetch_files_listing_calls)
    finally show ?thesis using wd l0 by simp
  next
    case (Inl err)
    let ?w1 = "console (FailedToLoadFromGitHub ty) wd"
    obtain c w2 where c: "loadFromCacheDir ty ?w1 = (c, w2)"
      by (cases "loadFromCacheDir ty ?w1")
    then have n2: "listing_calls cfg ty (trace w2) = listing_calls cfg ty (trace ?w1)"
      by (auto dest!: reads_only_loadFromCacheDir simp: no_fetch_listing_calls)
    have n1: "listing_calls cfg ty (trace ?w1) = listing_calls cfg ty (trace wd)"
      by (simp add: listing_calls_snoc)
    show ?thesis
    proof (cases c)
      case (Some cached)
      then have "w1 = console (UsingCached ty) w2"
        using a d Inl c by (simp add: loadFromGitHub_def)
      then show ?thesis using n1 n2 wd l0 by (simp add: listing_calls_snoc)
    next
      case None
      then have "loadFromLocal ty (console (FallingBack ty) w2) = (r, w1)"
        using a d Inl c by (simp add: loadFromGitHub_def)
      then have "listing_calls cfg ty (trace w1) = listing_calls cfg ty (trace (console (FallingBack ty) w2))"
        by (auto dest!: reads_only_loadFromLocal simp: no_fetch_listing_calls)
      then show ?thesis using n1 n2 wd l0 by (simp add: listing_calls_snoc)
    qed
  qed
qed

lemma loadWithCache_body_listing_calls:
  "loadWithCache_body ty cfg w = (r, w1) \<Longrightarrow>
   listing_calls cfg ty (trace w1) \<le> listing_calls cfg ty (trace w) + 1"
  by (auto simp add: loadWithCache_body_def split: if_splits prod.splits
      dest!: loadFromGitHub_listing_calls reads_only_loadFromLocal simp: no_fetch_listing_calls)


lemma set_cache_same [simp]: "cache_of T st = Some xs \<Longrightarrow> set_cache T xs st = st"
  by (cases T) auto

lemma cache_of_set_cache [simp]:
  "cache_of U (set_cache T xs st) = (if U = T then Some xs else cache_of U st)"
  by (cases T; cases U) simp_all

lemma set_cache_sel [simp]:
  "config (set_cache T xs st) = config st"
  "lastFetchTime (set_cache T xs st) = lastFetchTime st"
  "isFetching (set_cache T xs st) = isFetching st"
  by (cases T; simp)+

lemma load_unfold:
  "load T (t0, t1) (st, w) =
    (case loadWithCache_enter (cache_of T st) t0 st of
       (Return items, st1) \<Rightarrow> (Inr items, set_cache T items st1, w)
     | (Proceed, st1) \<Rightarrow>
         (case loadWithCache_body T (config st1) w of
            (r, w1) \<Rightarrow>
              (case loadWithCache_exit r t1 st1 of
                 (Inr items, st2) \<Rightarrow> (Inr items, set_cache T items st2, w1)
               | (Inl e, st2) \<Rightarrow> (Inl e, st2, w1))))"
  by (cases T)
     (auto simp add: loadSteps_def loadWorkflows_def loadWithCache_def
       split: prod.splits outcome.splits sum.splits)

lemma loadWithCache_body_Inr: "\<exists>items. fst (loadWithCache_body ty cfg w) = Inr items"
  by (auto simp add: loadWithCache_body_def split: prod.splits)

lemma load_hit:
  "cache_of T st = Some xs \<Longrightarrow> \<not> isCacheStale now st \<Longrightarrow> load T (now, t1) (st, w) = (Inr xs, st, w)"
  by (simp add: load_unfold loadWithCache_enter_def)

lemma load_inflight:
  "isFetching st \<Longrightarrow>
   load T (now, t1) (st, w) =
     (Inr (case cache_of T st of Some c \<Rightarrow> c | None \<Rightarrow> []),
      set_cache T (case cache_of T st of Some c \<Rightarrow> c | None \<Rightarrow> []) st, w)"
  by (auto simp add: load_unfold loadWithCache_enter_def split: option.splits)

lemma load_fetch:
  "\<not> isFetching st \<Longrightarrow> cache_of T st = None \<or> isCacheStale t0 st \<Longrightarrow>
   loadWithCache_body T (config st) w = (Inr items, w1) \<Longrightarrow>
   load T (t0, t1) (st, w) =
     (Inr items, set_cache T items (st\<lparr>lastFetchTime := t1, isFetching := False\<rparr>), w1)"
  by (auto simp add: load_unfold loadWithCache_enter_def loadWithCache_exit_def Let_def
      split: option.splits)

lemma load_cases:
  obtains (hit) xs where "cache_of T st = Some xs" "\<not> isCacheStale t0 st"
      "load T (t0, t1) (st, w) = (Inr xs, st, w)"
  | (inflight) "isFetching st"
      "load T (t0, t1) (st, w) =
        (Inr (case cache_of T st of Some c \<Rightarrow> c | None \<Rightarrow> []),
         set_cache T (case cache_of T st of Some c \<Rightarrow> c | None \<Rightarrow> []) st, w)"
  | (fetch) items w1 where "\<not> isFetching st" "cache_of T st = None \<or> isCacheStale t0 st"
      "loadWithCache_body T (config st) w = (Inr items, w1)"
      "load T (t0, t1) (st, w) =
        (Inr items, set_cache T items (st\<lparr>lastFetchTime := t1, isFetching := False\<rparr>), w1)"
proof (cases "isFetching st")
  case True
  then show ?thesis using inflight load_inflight by blast
next
  case nf: False
  show ?thesis
  proof (cases "cache_of T st = None \<or> isCacheStale t0 st")
    case True
    obtain r w1 where b: "loadWithCache_body T (config st) w = (r, w1)"
      by (cases "loadWithCache_body T (config st) w")
    then obtain items where "r = Inr items"
      using loadWithCache_body_Inr [of T "config st" w] by auto
    with b nf True show ?thesis using fetch load_fetch by blast
  next
    case False
    then obtain xs where "cache_of T st = Some xs" "\<not> isCacheStale t0 st"
      by auto
    then show ?thesis using hit [of xs] load_hit [of T st xs t0 t1 w] by simp
  qed
qed

text \<open>The flag and the fetches in flight.\<close>

lemma loadWithCache_enter_flag:
  "loadWithCache_enter cache now st = (Return xs, st1) \<Longrightarrow> st1 = st"
  "loadWithCache_enter cache now st = (Proceed, st1) \<Longrightarrow> \<not> isFetching st \<and> st1 = st\<lparr>isFetching := True\<rparr>"
  by (auto simp add: loadWithCache_enter_def Let_def split: option.splits if_splits)

lemma loadWithCache_exit_flag: "\<not> isFetching (snd (loadWithCache_exit r t st))"
  by (cases r) (simp_all add: loadWithCache_exit_def)

lemma step_single_flight: "single_flight s \<Longrightarrow> single_flight (step a s)"
proof (cases a)
  case (CallLoad ty now)
  assume inv: "single_flight s"
  obtain out st1 where e: "loadWithCache_enter (cache_of ty (ms s)) now (ms s) = (out, st1)"
    by (cases "loadWithCache_enter (cache_of ty (ms s)) now (ms s)")
  show ?thesis
  proof (cases out)
    case (Return xs)
    with e have "st1 = ms s" by (auto dest: loadWithCache_enter_flag)
    with inv CallLoad e Return show ?thesis by (simp add: single_flight_def)
  next
    case Proceed
    with e have "\<not> isFetching (ms s)" "st1 = (ms s)\<lparr>isFetching := True\<rparr>"
      by (auto dest: loadWithCache_enter_flag)
    with inv CallLoad e Proceed show ?thesis
      by (auto simp add: single_flight_def split: prod.splits)
  qed
next
  case (Complete now)
  assume inv: "single_flight s"
  show ?thesis
  proof (cases "inflight s")
    case Nil
    with inv Complete show ?thesis by simp
  next
    case (Cons p rest)
    obtain ty r where p: "p = (ty, r)" by (cases p)
    from inv Cons have rest: "rest = []" by (simp add: single_flight_def)
    have "\<not> isFetching (snd (loadWithCache_exit r now (ms s)))"
      by (rule loadWithCache_exit_flag)
    with Complete Cons p rest show ?thesis
      by (auto simp add: single_flight_def split: prod.splits sum.splits)
  qed
next
  case (UpdateConfig nc)
  assume "single_flight s"
  with UpdateConfig show ?thesis by (simp add: single_flight_def updateConfig_def)
next
  case ClearCache
  assume "single_flight s"
  with ClearCache show ?thesis by (simp add: single_flight_def clearCache_def)
qed

lemma run_single_flight: "single_flight s \<Longrightarrow> single_flight (run acts s)"
  unfolding run_def by (induction acts arbitrary: s) (simp_all add: step_single_flight)

lemma start_single_flight: "single_flight (start c w)"
  by (simp add: single_flight_def start_def initial_state_def)

lemma step_call_inflight:
  "isFetching (ms s) \<Longrightarrow>
   step (CallLoad T now) s = s\<lparr>ms := set_cache T (or_empty (cache_of T (ms s))) (ms s)\<rparr>"
  by (auto simp add: loadWithCache_enter_def or_empty_def Let_def split: option.splits)

text \<open>
  A call that nothing interleaves with is the uninterrupted \<open>load\<close>: the two views of the
  module agree.
\<close>

lemma run_call_complete:
  assumes "inflight s = []" and "\<not> isFetching (ms s)"
    and "load T (t0, t1) (ms s, wd s) = (r, st', w')"
  shows "run [CallLoad T t0, Complete t1] s = s\<lparr>ms := st', wd := w'\<rparr>"
proof (cases rule: load_cases [of T "ms s" t0 t1 "wd s"])
  case (hit xs)
  then have "loadWithCache_enter (cache_of T (ms s)) t0 (ms s) = (Return xs, ms s)"
    by (simp add: loadWithCache_enter_def)
  with hit assms show ?thesis by (simp add: run_def)
next
  case inflight
  with assms show ?thesis by simp
next
  case (fetch items w1)
  then have "loadWithCache_enter (cache_of T (ms s)) t0 (ms s) = (Proceed, (ms s)\<lparr>isFetching := True\<rparr>)"
    by (auto simp add: loadWithCache_enter_def Let_def split: option.splits)
  with fetch assms show ?thesis
    by (simp add: run_def loadWithCache_exit_def)
qed

text \<open>Reconfiguration.\<close>

lemma assign_string_simps:
  "assign_string None old = old"
  "s \<noteq> [] \<Longrightarrow> assign_string (Some s) old = s"
  by (simp_all add: assign_string_def)

lemma assign_token_simps:
  "assign_token None old = old"
  "s \<noteq> [] \<Longrightarrow> assign_token (Some (Some s)) old = Some s"
  by (simp_all add: assign_token_def)

lemma assign_ttl_simps:
  "assign_ttl None old = old"
  "n \<noteq> 0 \<Longrightarrow> assign_ttl (Some n) old = n * 1000"
  by (simp_all add: assign_ttl_def)

lemma updateConfig_sel:
  "stepsCache (updateConfig nc st) = None"
  "workflowsCache (updateConfig nc st) = None"
  "lastFetchTime (updateConfig nc st) = 0"
  "isFetching (updateConfig nc st) = isFetching st"
  "cache_of T (updateConfig nc st) = None"
  by (cases T; simp add: updateConfig_def)+

text \<open>The loop of the mirror read, declaratively.\<close>

lemma mirror_file_item_emit [simp]: "mirror_file_item (emit e w) = mirror_file_item w"
  by (simp add: mirror_file_item_def fun_eq_iff)

lemma readFile_mirror_item:
  "fst (readFile MirrorStore ty f w) =
    (if fs_fails w (ReadFile MirrorStore ty f) then Inl FsError
     else case mirror w ty of None \<Rightarrow> Inl FsError
       | Some files \<Rightarrow> (case map_of files f of None \<Rightarrow> Inl FsError | Some c \<Rightarrow> Inr c))"
  by (simp add: readFile_def Let_def store_dir_def split: option.splits)

lemma read_cache_files_all:
  "\<forall>f \<in> set (filter (\<lambda>f. endsWith f ''.json'') names). mirror_file_item w ty f \<noteq> None \<Longrightarrow>
   fst (read_cache_files ty names acc w) =
     Inr (acc @ List.map_filter (mirror_file_item w ty) (filter (\<lambda>f. endsWith f ''.json'') names))"
proof (induction names arbitrary: acc w)
  case Nil
  show ?case by simp
next
  case (Cons f names)
  show ?case
  proof (cases "endsWith f ''.json''")
    case False
    with Cons show ?thesis by simp
  next
    case True
    with Cons.prems obtain i where i: "mirror_file_item w ty f = Some i" by auto
    obtain r w1 where rf: "readFile MirrorStore ty f w = (r, w1)"
      by (cases "readFile MirrorStore ty f w")
    then have w1: "w1 = emit (Fs (ReadFile MirrorStore ty f)) w"
      by (rule readFile_world)
    from i obtain c where c: "r = Inr c" "JSON_parse c = Inr i"
      using rf readFile_mirror_item [of ty f w]
      by (auto simp add: mirror_file_item_def split: if_splits option.splits sum.splits)
    have "\<forall>g \<in> set (filter (\<lambda>f. endsWith f ''.json'') names). mirror_file_item w1 ty g \<noteq> None"
      using Cons.prems w1 by simp
    from Cons.IH [OF this, of "acc @ [i]"] show ?thesis
      using True i rf c w1 by simp
  qed
qed

lemma read_cache_files_some_bad:
  "\<exists>f \<in> set (filter (\<lambda>f. endsWith f ''.json'') names). mirror_file_item w ty f = None \<Longrightarrow>
   isl (fst (read_cache_files ty names acc w))"
proof (induction names arbitrary: acc w)
  case Nil
  then show ?case by simp
next
  case (Cons f names)
  show ?case
  proof (cases "endsWith f ''.json''")
    case False
    with Cons show ?thesis by simp
  next
    case True
    obtain r w1 where rf: "readFile MirrorStore ty f w = (r, w1)"
      by (cases "readFile MirrorStore ty f w")
    then have w1: "w1 = emit (Fs (ReadFile MirrorStore ty f)) w"
      by (rule readFile_world)
    show ?thesis
    proof (cases "mirror_file_item w ty f")
      case None
      then show ?thesis
        using True rf readFile_mirror_item [of ty f w]
        by (auto simp add: mirror_file_item_def split: if_splits option.splits sum.splits)
    next
      case (Some i)
      then obtain c where c: "r = Inr c" "JSON_parse c = Inr i"
        using rf readFile_mirror_item [of ty f w]
        by (auto simp add: mirror_file_item_def split: if_splits option.splits sum.splits)
      have "\<exists>g \<in> set (filter (\<lambda>f. endsWith f ''.json'') names). mirror_file_item w1 ty g = None"
        using Cons.prems Some w1 True by auto
      from Cons.IH [OF this, of "acc @ [i]"] show ?thesis
        using True rf c by simp
    qed
  qed
qed

text \<open>The loop of the mirror write, declaratively.\<close>

lemma written_prefix_emit [simp]: "written_prefix (emit e w) = written_prefix w"
  by (simp add: written_prefix_def fun_eq_iff)

lemma writeFile_ok:
  "mirror w ty = Some files \<Longrightarrow> \<not> fs_fails w (WriteFile ty f) \<Longrightarrow>
   writeFile ty f c w =
     (Inr (), (emit (Fs (WriteFile ty f)) w)\<lparr>mirror := (mirror w)(ty := Some (AList.update f c files))\<rparr>)"
  by (simp add: writeFile_def Let_def)

lemma writeFile_fail:
  "fs_fails w (WriteFile ty f) \<Longrightarrow> writeFile ty f c w = (Inl FsError, emit (Fs (WriteFile ty f)) w)"
  by (simp add: writeFile_def Let_def)

lemma save_items_spec:
  "mirror w ty = Some files \<Longrightarrow> save_items ty items w = (r, w1) \<Longrightarrow>
   mirror w1 = (mirror w)(ty := Some (put_items (written_prefix w ty items) files)) \<and>
   trace w1 = trace w @
     map (\<lambda>i. Fs (WriteFile ty (item_id i @ ''.json'')))
       (take (Suc (length (written_prefix w ty items))) items) \<and>
   (isl r \<longleftrightarrow> written_prefix w ty items \<noteq> items)"
proof (induction items arbitrary: w files)
  case Nil
  then show ?case by (auto simp add: written_prefix_def put_items_def)
next
  case (Cons i items)
  let ?f = "item_id i @ ''.json''"
  show ?case
  proof (cases "fs_fails w (WriteFile ty ?f)")
    case True
    with Cons.prems show ?thesis
      by (auto simp add: writeFile_fail written_prefix_def put_items_def)
  next
    case False
    let ?w' = "(emit (Fs (WriteFile ty ?f)) w)\<lparr>mirror := (mirror w)(ty := Some (AList.update ?f (JSON_stringify i) files))\<rparr>"
    have rec: "save_items ty items ?w' = (r, w1)"
      using Cons.prems False by (simp add: writeFile_ok)
    have m: "mirror ?w' ty = Some (AList.update ?f (JSON_stringify i) files)"
      by simp
    have wp: "written_prefix ?w' ty items = written_prefix w ty items"
      by (simp add: written_prefix_def)
    have wp2: "written_prefix w ty (i # items) = i # written_prefix w ty items"
      using False by (simp add: written_prefix_def)
    from Cons.IH [OF m rec] show ?thesis
      by (auto simp add: wp wp2 put_items_def fun_eq_iff)
  qed
qed

lemma loadFromCacheDir_spec:
  "fst (loadFromCacheDir ty w) =
    (case mirror w ty of
       None \<Rightarrow> None
     | Some files \<Rightarrow>
         if fs_fails w (Readdir MirrorStore ty)
            \<or> (\<exists>f \<in> set (json_names files). mirror_file_item w ty f = None)
            \<or> json_names files = []
         then None
         else Some (List.map_filter (mirror_file_item w ty) (json_names files)))"
proof (cases "mirror w ty")
  case None
  then show ?thesis by (simp add: loadFromCacheDir_def existsSync_def)
next
  case (Some files)
  let ?w2 = "emit (Fs (Readdir MirrorStore ty)) (emit (ExistsSync ty) w)"
  let ?names = "map fst files"
  show ?thesis
  proof (cases "fs_fails w (Readdir MirrorStore ty)")
    case True
    with Some show ?thesis
      by (simp add: loadFromCacheDir_def existsSync_def readdir_def store_dir_def)
  next
    case nf: False
    have unfold: "fst (loadFromCacheDir ty w) =
        (case fst (read_cache_files ty ?names [] ?w2) of
           Inl e \<Rightarrow> None
         | Inr items \<Rightarrow> if length items > 0 then Some items else None)"
      using Some nf
      by (simp add: loadFromCacheDir_def existsSync_def readdir_def store_dir_def Let_def
          split: prod.splits sum.splits)
    show ?thesis
    proof (cases "\<exists>f \<in> set (json_names files). mirror_file_item w ty f = None")
      case True
      then have "isl (fst (read_cache_files ty ?names [] ?w2))"
        by (intro read_cache_files_some_bad) (auto simp add: json_names_def)
      with True Some unfold show ?thesis by (auto split: sum.splits)
    next
      case False
      then have "fst (read_cache_files ty ?names [] ?w2) =
          Inr ([] @ List.map_filter (mirror_file_item ?w2 ty) (filter (\<lambda>f. endsWith f ''.json'') ?names))"
        by (intro read_cache_files_all) (auto simp add: json_names_def)
      then have r: "fst (read_cache_files ty ?names [] ?w2) =
          Inr (List.map_filter (mirror_file_item w ty) (json_names files))"
        by (simp add: json_names_def cong: map_cong)
      have "List.map_filter (mirror_file_item w ty) (json_names files) = [] \<longleftrightarrow> json_names files = []"
        using False by (cases "json_names files") auto
      with False Some nf unfold r show ?thesis by auto
    qed
  qed
qed

lemma saveToCacheDir_spec:
  "(fs_fails w (Mkdir ty) \<longrightarrow>
      mirror (saveToCacheDir ty items w) = mirror w \<and>
      trace (saveToCacheDir ty items w) = trace w @ [Fs (Mkdir ty), Console (FailedToSave ty)]) \<and>
   (\<not> fs_fails w (Mkdir ty) \<longrightarrow>
      mirror (saveToCacheDir ty items w) =
        (mirror w)(ty := Some (put_items (written_prefix w ty items) (dir_files (mirror w ty)))) \<and>
      trace (saveToCacheDir ty items w) =
        trace w @ Fs (Mkdir ty) #
          map (\<lambda>i. Fs (WriteFile ty (item_id i @ ''.json'')))
            (take (Suc (length (written_prefix w ty items))) items) @
          (if written_prefix w ty items = items then [] else [Console (FailedToSave ty)]))"
proof (intro conjI impI)
  assume f: "fs_fails w (Mkdir ty)"
  then show "mirror (saveToCacheDir ty items w) = mirror w"
    by (simp add: saveToCacheDir_def mkdir_def Let_def)
  from f show "trace (saveToCacheDir ty items w) = trace w @ [Fs (Mkdir ty), Console (FailedToSave ty)]"
    by (simp add: saveToCacheDir_def mkdir_def Let_def)
next
  assume nf: "\<not> fs_fails w (Mkdir ty)"
  let ?w1 = "(emit (Fs (Mkdir ty)) w)\<lparr>mirror := (mirror w)(ty := Some (dir_files (mirror w ty)))\<rparr>"
  have mk: "mkdir ty w = (Inr (), ?w1)"
    using nf by (simp add: mkdir_def Let_def dir_files_def)
  obtain r w2 where s: "save_items ty items ?w1 = (r, w2)"
    by (cases "save_items ty items ?w1")
  have m1: "mirror ?w1 ty = Some (dir_files (mirror w ty))"
    by simp
  have wp: "written_prefix ?w1 ty items = written_prefix w ty items"
    by (simp add: written_prefix_def)
  note spec = save_items_spec [OF m1 s, unfolded wp]
  have res: "saveToCacheDir ty items w = (if isl r then console (FailedToSave ty) w2 else w2)"
    using mk s by (cases r) (simp_all add: saveToCacheDir_def)
  show "mirror (saveToCacheDir ty items w) =
      (mirror w)(ty := Some (put_items (written_prefix w ty items) (dir_files (mirror w ty))))"
    using res spec by simp
  show "trace (saveToCacheDir ty items w) =
      trace w @ Fs (Mkdir ty) #
        map (\<lambda>i. Fs (WriteFile ty (item_id i @ ''.json'')))
          (take (Suc (length (written_prefix w ty items))) items) @
        (if written_prefix w ty items = items then [] else [Console (FailedToSave ty)])"
    using res spec by simp
qed

text \<open>The fallback chain of the remote load.\<close>

lemma loadFromCacheDir_cong:
  "mirror w' = mirror w \<Longrightarrow> fs_fails w' = fs_fails w \<Longrightarrow>
   fst (loadFromCacheDir ty w') = fst (loadFromCacheDir ty w)"
proof -
  assume a: "mirror w' = mirror w" "fs_fails w' = fs_fails w"
  then have "mirror_file_item w' = mirror_file_item w"
    by (simp add: mirror_file_item_def fun_eq_iff)
  with a show ?thesis by (auto simp add: loadFromCacheDir_spec split: option.splits)
qed

lemma read_local_files_cong:
  "bundled w' = bundled w \<Longrightarrow> fs_fails w' = fs_fails w \<Longrightarrow>
   fst (read_local_files ty fs acc w') = fst (read_local_files ty fs acc w)"
proof (induction fs arbitrary: acc w w')
  case Nil
  show ?case by simp
next
  case (Cons f fs)
  have sd: "store_dir BundledStore w' = store_dir BundledStore w"
    using Cons.prems by (simp add: store_dir_def fun_eq_iff)
  obtain r w1 where r: "readFile BundledStore ty f w = (r, w1)"
    by (cases "readFile BundledStore ty f w")
  obtain r' w1' where r': "readFile BundledStore ty f w' = (r', w1')"
    by (cases "readFile BundledStore ty f w'")
  have eq: "r' = r"
    using fst_readFile_cong [of BundledStore w' w ty f] sd Cons.prems r r' by simp
  have w1: "w1 = emit (Fs (ReadFile BundledStore ty f)) w" "w1' = emit (Fs (ReadFile BundledStore ty f)) w'"
    using r r' by (auto dest: readFile_world)
  have env: "bundled w1' = bundled w1" "fs_fails w1' = fs_fails w1"
    using w1 Cons.prems by simp_all
  have env2: "bundled (console m w1') = bundled (console m w1)"
    "fs_fails (console m w1') = fs_fails (console m w1)" for m
    using env by simp_all
  show ?case
    using r r' eq Cons.IH [OF env] Cons.IH [OF env2] Cons.IH [OF Cons.prems]
    by (auto split: sum.splits)
qed

lemma loadFromLocal_cong:
  "bundled w' = bundled w \<Longrightarrow> fs_fails w' = fs_fails w \<Longrightarrow>
   fst (loadFromLocal ty w') = fst (loadFromLocal ty w)"
proof -
  assume a: "bundled w' = bundled w" "fs_fails w' = fs_fails w"
  have e: "bundled (emit e w') = bundled (emit e w)" "fs_fails (emit e w') = fs_fails (emit e w)" for e
    using a by simp_all
  show ?thesis
    using a read_local_files_cong [OF e]
    by (auto simp add: loadFromLocal_def readdir_def store_dir_def Let_def split: option.splits)
qed

lemma loadFromGitHub_fallback:
  assumes "isl (fst (fetchGitHubDirectory cfg (type_name ty) w))"
    and "loadFromGitHub cfg ty w = (r, w1)"
  shows "reads_only w w1 \<and>
    r = (case fst (loadFromCacheDir ty w) of Some c \<Rightarrow> c | None \<Rightarrow> fst (loadFromLocal ty w))"
proof -
  obtain d w0 where d: "fetchGitHubDirectory cfg (type_name ty) w = (d, w0)"
    by (cases "fetchGitHubDirectory cfg (type_name ty) w")
  with assms(1) obtain e where e: "d = Inl e" by (cases d) auto
  have w0: "reads_only w w0"
    using d by (auto dest!: fetchGitHubDirectory_world simp add: reads_only_def)
  let ?w2 = "console (FailedToLoadFromGitHub ty) w0"
  have w2: "reads_only w ?w2" using w0 by (simp add: reads_only_def)
  obtain c w3 where c: "loadFromCacheDir ty ?w2 = (c, w3)"
    by (cases "loadFromCacheDir ty ?w2")
  then have w3: "reads_only w w3"
    using w2 by (auto dest!: reads_only_loadFromCacheDir simp add: reads_only_def)
  have ceq: "fst (loadFromCacheDir ty w) = c"
    using c w2 loadFromCacheDir_cong [of ?w2 w ty] by (simp add: reads_only_def)
  show ?thesis
  proof (cases c)
    case (Some cached)
    then have "r = cached" "w1 = console (UsingCached ty) w3"
      using assms(2) d e c by (auto simp add: loadFromGitHub_def)
    with w3 ceq Some show ?thesis by (simp add: reads_only_def)
  next
    case None
    let ?w4 = "console (FallingBack ty) w3"
    have l: "loadFromLocal ty ?w4 = (r, w1)"
      using assms(2) d e c None by (auto simp add: loadFromGitHub_def)
    have w4: "reads_only w ?w4" using w3 by (simp add: reads_only_def)
    have "reads_only w w1"
      using l w4 by (auto dest!: reads_only_loadFromLocal simp add: reads_only_def)
    moreover have "r = fst (loadFromLocal ty w)"
      using l w4 loadFromLocal_cong [of ?w4 w ty] by (simp add: reads_only_def)
    ultimately show ?thesis using ceq None by simp
  qed
qed

lemma loadWithCache_body_reads_only:
  assumes "source cfg \<noteq> ''github'' \<or> isl (fst (fetchGitHubDirectory cfg (type_name ty) w))"
    and "loadWithCache_body ty cfg w = (r, w1)"
  shows "reads_only w w1"
proof (cases "source cfg = ''github''")
  case True
  with assms obtain items where "loadFromGitHub cfg ty w = (items, w1)"
    by (auto simp add: loadWithCache_body_def split: prod.splits)
  with assms True show ?thesis using loadFromGitHub_fallback by blast
next
  case False
  with assms obtain items where "loadFromLocal ty w = (items, w1)"
    by (auto simp add: loadWithCache_body_def split: prod.splits)
  then show ?thesis by (auto dest: reads_only_loadFromLocal)
qed

text \<open>Loads that hit the cache.\<close>

lemma loads_hits:
  "\<forall>(U, t2, t3) \<in> set calls. cache_of U st \<noteq> None \<and> \<not> isCacheStale t2 st \<Longrightarrow>
   loads calls (st, w) = (st, w)"
proof (induction calls)
  case Nil
  show ?case by simp
next
  case (Cons c calls)
  obtain U t2 t3 where c: "c = (U, t2, t3)" by (cases c)
  with Cons.prems obtain ys where "cache_of U st = Some ys" "\<not> isCacheStale t2 st" by auto
  then have "load U (t2, t3) (st, w) = (Inr ys, st, w)" by (rule load_hit)
  with Cons c show ?case by simp
qed












text \<open>The read of an intact mirror gives the items the mirror holds.\<close>

lemma intact_sublist_items:
  assumes "distinct (map fst files)"
    and "\<forall>(f, c) \<in> set files. endsWith f ''.json'' \<longrightarrow>
        \<not> fs_fails w (ReadFile MirrorStore ty f) \<and> (\<exists>i. c = Json i)"
    and "mirror w ty = Some files"
  shows "set sub \<subseteq> set files \<Longrightarrow>
    List.map_filter (mirror_file_item w ty) (json_names sub) = mirror_items sub \<and>
    (\<forall>f \<in> set (json_names sub). mirror_file_item w ty f \<noteq> None)"
proof (induction sub)
  case Nil
  show ?case by (simp add: json_names_def mirror_items_def)
next
  case (Cons p sub)
  obtain f c where p: "p = (f, c)" by (cases p)
  with Cons.prems have mem: "(f, c) \<in> set files" by simp
  then have look: "map_of files f = Some c"
    using assms(1) by simp
  from Cons have ih: "List.map_filter (mirror_file_item w ty) (json_names sub) = mirror_items sub"
    "\<forall>f \<in> set (json_names sub). mirror_file_item w ty f \<noteq> None"
    by simp_all
  show ?case
  proof (cases "endsWith f ''.json''")
    case False
    with p ih show ?thesis by (simp add: json_names_def mirror_items_def)
  next
    case True
    with mem assms(2) obtain i where i: "c = Json i" "\<not> fs_fails w (ReadFile MirrorStore ty f)"
      by auto
    then have "mirror_file_item w ty f = Some i"
      using look assms(3) by (simp add: mirror_file_item_def)
    with p True i ih show ?thesis
      by (simp add: json_names_def mirror_items_def)
  qed
qed

lemma loadFromCacheDir_intact:
  assumes "mirror_intact w ty files"
  shows "fst (loadFromCacheDir ty w) = (if mirror_items files = [] then None else Some (mirror_items files))"
proof -
  from assms have a: "distinct (map fst files)"
    "\<forall>(f, c) \<in> set files. endsWith f ''.json'' \<longrightarrow>
        \<not> fs_fails w (ReadFile MirrorStore ty f) \<and> (\<exists>i. c = Json i)"
    "mirror w ty = Some files" "\<not> fs_fails w (Readdir MirrorStore ty)"
    by (simp_all add: mirror_intact_def)
  have s: "List.map_filter (mirror_file_item w ty) (json_names files) = mirror_items files"
    "\<forall>f \<in> set (json_names files). mirror_file_item w ty f \<noteq> None"
    using intact_sublist_items [OF a(1) a(2) a(3), of files] by simp_all
  have e: "(json_names files = []) = (mirror_items files = [])"
  proof
    assume "json_names files = []"
    with s(1) show "mirror_items files = []" by (simp add: List.map_filter_def)
  next
    assume m: "mirror_items files = []"
    show "json_names files = []"
    proof (rule ccontr)
      assume "json_names files \<noteq> []"
      then obtain f fs where fs: "json_names files = f # fs" by (cases "json_names files") auto
      with s(2) obtain i where "mirror_file_item w ty f = Some i" by auto
      with fs s(1) m show False by (simp add: List.map_filter_def)
    qed
  qed
  show ?thesis
    using a(3) a(4) s e by (auto simp add: loadFromCacheDir_spec)
qed

section \<open>The scenarios, evaluated\<close>

lemmas loader_defs =
  loadSteps_def loadWorkflows_def loadWithCache_def loadWithCache_enter_def
  loadWithCache_body_def loadWithCache_exit_def isCacheStale_def loadFromGitHub_def
  fetchGitHubDirectory_def fetchGitHubFile_def fetchFromGitHub_def fetch_def github_url_def
  github_headers_def saveToCacheDir_def mkdir_def writeFile_def loadFromCacheDir_def
  existsSync_def readdir_def readFile_def store_dir_def loadFromLocal_def console_def emit_def
  endsWith_def JSON_stringify_def Let_def initial_state_def default_config_def

lemmas demo_defs =
  demo_a_def demo_a2_def demo_b_def demo_config_def demo_world_def demo_http_def ok_response_def
  demo_loaded_def
  demo_mirrored_def demo_offline_def demo_busy_def demo_ttl0_def demo_stale_def no_change_def
  demo_secret_def demo_new_config_def demo_damaged_def demo_failing_def demo_fallen_back_def
  demo_offline_after_def demo_listing_def demo_no_mkdir_def demo_damaged_offline_def

lemma demo_load_steps:
  "load Steps (1000, 1200) (initial_state demo_config, demo_world) =
     (Inr [demo_a, demo_a2], demo_loaded, demo_mirrored)"
  by (simp add: loader_defs demo_defs)

lemma demo_inflight_eval:
  "demo_inflight = \<lparr>ms = demo_busy, wd = demo_mirrored, inflight = [(Steps, Inr [demo_a, demo_a2])]\<rparr>"
  by (simp add: demo_inflight_def start_def loader_defs demo_defs)

lemma demo_offline_listing:
  "isl (fst (fetchGitHubDirectory demo_config (type_name Steps) demo_offline))"
  by (simp add: loader_defs demo_defs)

lemma demo_offline_mirror_read: "fst (loadFromCacheDir Steps demo_offline) = Some [demo_a2]"
  by (simp add: loader_defs demo_defs)

lemma demo_offline_load:
  "load Steps (400000, 400100) (demo_loaded, demo_offline) =
     (Inr [demo_a2], demo_fallen_back, demo_offline_after)"
  by (simp add: loader_defs demo_defs)

section \<open>C1: a fresh cache entry is served without I/O\<close>

text \<open>
  Claim C1. For every collection type \<open>T\<close>: if a cache entry for \<open>T\<close> exists and
  \<open>now\<close> minus the last-fetch timestamp is at most the configured TTL, then the load of
  \<open>T\<close> returns the cached sequence unchanged and performs no I/O (the module state and
  the world, trace included, are what they were). Consequently two loads of \<open>T\<close>, the
  second starting within one TTL of the moment the first was done, with nothing in
  between, issue at most one request for the remote directory listing of \<open>T\<close>: the
  trace after the second load holds at most one more such request than the trace
  before the first.
\<close>

theorem C1_fresh_cache_served_without_io:
  "(cache_of T st = Some xs \<and> now - lastFetchTime st \<le> cacheTTL (config st) \<longrightarrow>
      load T (now, t) (st, w) = (Inr xs, st, w)) \<and>
   (load T (t0, t1) (st, w) = (r1, st1, w1) \<and> t2 - t1 \<le> cacheTTL (config st) \<and>
    trace w1' = trace w1 \<and> load T (t2, t3) (st1, w1') = (r2, st2, w2) \<longrightarrow>
      listing_calls (config st) T (trace w2) \<le> listing_calls (config st) T (trace w) + 1)"
proof (intro conjI impI)
  assume "cache_of T st = Some xs \<and> now - lastFetchTime st \<le> cacheTTL (config st)"
  then show "load T (now, t) (st, w) = (Inr xs, st, w)"
    by (simp add: load_hit isCacheStale_def)
next
  assume a: "load T (t0, t1) (st, w) = (r1, st1, w1) \<and> t2 - t1 \<le> cacheTTL (config st) \<and>
    trace w1' = trace w1 \<and> load T (t2, t3) (st1, w1') = (r2, st2, w2)"
  have any: "listing_calls (config s) T (trace v') \<le> listing_calls (config s) T (trace v) + 1"
    if "load T (a, b) (s, v) = (r, s', v')" for a b s v r s' v'
    using that
    by (cases rule: load_cases [of T s a b v]) (auto dest: loadWithCache_body_listing_calls)
  show "listing_calls (config st) T (trace w2) \<le> listing_calls (config st) T (trace w) + 1"
  proof (cases rule: load_cases [of T st t0 t1 w])
    case (hit xs)
    with a have "w1 = w" "config st1 = config st" by auto
    with a any [of t2 t3 st1 w1' r2 st2 w2] show ?thesis by simp
  next
    case inflight
    with a have "w1 = w" "config st1 = config st" by auto
    with a any [of t2 t3 st1 w1' r2 st2 w2] show ?thesis by simp
  next
    case (fetch items v)
    with a have s1: "st1 = set_cache T items (st\<lparr>lastFetchTime := t1, isFetching := False\<rparr>)"
      and w1: "w1 = v" by auto
    have "cache_of T st1 = Some items" "\<not> isCacheStale t2 st1"
      using a s1 by (simp_all add: isCacheStale_def)
    then have "load T (t2, t3) (st1, w1') = (Inr items, st1, w1')"
      by (rule load_hit)
    with a have "w2 = w1'" by simp
    then show ?thesis
      using a w1 loadWithCache_body_listing_calls [OF fetch(3)] by (simp add: listing_calls_def)
  qed
qed

theorem C1_witness:
  "load Steps (300000, 300100) (demo_loaded, demo_mirrored) =
     (Inr [demo_a, demo_a2], demo_loaded, demo_mirrored) \<and>
   listing_calls demo_config Steps (trace demo_mirrored) \<le>
     listing_calls demo_config Steps (trace demo_world) + 1"
proof -
  have fresh: "cache_of Steps demo_loaded = Some [demo_a, demo_a2] \<and>
      300000 - lastFetchTime demo_loaded \<le> cacheTTL (config demo_loaded)"
    by (simp add: demo_defs default_config_def)
  have hit: "load Steps (300000, 300100) (demo_loaded, demo_mirrored) =
      (Inr [demo_a, demo_a2], demo_loaded, demo_mirrored)"
    using fresh
      C1_fresh_cache_served_without_io [of Steps demo_loaded "[demo_a, demo_a2]" 300000 300100
        demo_mirrored]
    by blast
  have two: "load Steps (1000, 1200) (initial_state demo_config, demo_world) =
        (Inr [demo_a, demo_a2], demo_loaded, demo_mirrored) \<and>
      300000 - 1200 \<le> cacheTTL (config (initial_state demo_config)) \<and>
      trace demo_mirrored = trace demo_mirrored \<and>
      load Steps (300000, 300100) (demo_loaded, demo_mirrored) =
        (Inr [demo_a, demo_a2], demo_loaded, demo_mirrored)"
    using demo_load_steps hit by (simp add: initial_state_def demo_defs default_config_def)
  have "listing_calls (config (initial_state demo_config)) Steps (trace demo_mirrored) \<le>
      listing_calls (config (initial_state demo_config)) Steps (trace demo_world) + 1"
    using two
      C1_fresh_cache_served_without_io [of Steps "initial_state demo_config" _ _ _
        demo_world 1000 1200 "Inr [demo_a, demo_a2]" demo_loaded demo_mirrored 300000
        demo_mirrored 300100 "Inr [demo_a, demo_a2]" demo_loaded demo_mirrored]
    by blast
  then show ?thesis using hit by (simp add: initial_state_def)
qed

section \<open>C2: the mirror is written on a successful remote fetch only\<close>

text \<open>
  Claim C2 says that a load whose remote listing fails writes nothing to the mirror
  and, when the mirror holds at least one item, returns exactly the mirror's items.
  The first half holds. The second does not hold of every mirror that holds an item:
  the mirror read gives up at the first \<^verbatim>\<open>.json\<close> file that cannot be read or parsed,
  and the load then falls through to the bundled defaults. Here the remote is
  unreachable, the mirror holds the item of \<^verbatim>\<open>a.json\<close> beside a malformed
  \<^verbatim>\<open>bad.json\<close>, and the load returns the bundled step; the mirror is left as it was.
\<close>

theorem C2_counterexample:
  "isl (fst (fetchGitHubDirectory demo_config (type_name Steps) demo_damaged_offline)) \<and>
   mirror_items (dir_files (mirror demo_damaged_offline Steps)) = [demo_a] \<and>
   fst (load Steps (1000, 1200) (initial_state demo_config, demo_damaged_offline)) = Inr [demo_b] \<and>
   mirror (snd (snd (load Steps (1000, 1200) (initial_state demo_config, demo_damaged_offline)))) =
     mirror demo_damaged_offline"
  by (simp add: loader_defs demo_defs mirror_items_def dir_files_def)

text \<open>
  Claim C2, amended. For every load of \<open>T\<close> whose remote directory listing fails (and
  for every load in local-only mode), no mirror write occurs: the mirror after the
  load is the mirror before it, and the trace gained no \<^verbatim>\<open>mkdir\<close> and no \<^verbatim>\<open>writeFile\<close>.
  So the mirror is never written from the bundled defaults or from a mirror-fallback
  read. In particular, when the listing fails and the mirror of \<open>T\<close> is intact (it can
  be listed, and every \<^verbatim>\<open>.json\<close> file in it can be read and parses) and holds at least
  one item, the load returns exactly the items the mirror holds, in the order of the
  directory.
\<close>

theorem C2_mirror_written_only_on_remote_success:
  "(source (config st) \<noteq> ''github'' \<or> isl (fst (fetchGitHubDirectory (config st) (type_name T) w)) \<longrightarrow>
      load T (t0, t1) (st, w) = (r, st', w') \<longrightarrow>
      mirror w' = mirror w \<and> mirror_writes (trace w') = mirror_writes (trace w)) \<and>
   (isl (fst (fetchGitHubDirectory cfg (type_name T) w)) \<longrightarrow>
      mirror (snd (loadFromGitHub cfg T w)) = mirror w \<and>
      mirror_writes (trace (snd (loadFromGitHub cfg T w))) = mirror_writes (trace w)) \<and>
   (isl (fst (fetchGitHubDirectory cfg (type_name T) w)) \<and>
    mirror_intact w T files \<and> mirror_items files \<noteq> [] \<longrightarrow>
      fst (loadFromGitHub cfg T w) = mirror_items files) \<and>
   (\<not> isFetching st \<and> (cache_of T st = None \<or> isCacheStale t0 st) \<and>
    source (config st) = ''github'' \<and>
    isl (fst (fetchGitHubDirectory (config st) (type_name T) w)) \<and>
    mirror_intact w T files \<and> mirror_items files \<noteq> [] \<longrightarrow>
      fst (load T (t0, t1) (st, w)) = Inr (mirror_items files))"
proof (intro conjI impI)
  assume a: "source (config st) \<noteq> ''github'' \<or> isl (fst (fetchGitHubDirectory (config st) (type_name T) w))"
    and l: "load T (t0, t1) (st, w) = (r, st', w')"
  have "reads_only w w'"
  proof (cases rule: load_cases [of T st t0 t1 w])
    case (hit xs)
    with l show ?thesis by (simp add: reads_only_def)
  next
    case inflight
    with l show ?thesis by (simp add: reads_only_def)
  next
    case (fetch items w1)
    with l have "w' = w1" by simp
    with a fetch(3) show ?thesis using loadWithCache_body_reads_only by blast
  qed
  then show "mirror w' = mirror w" "mirror_writes (trace w') = mirror_writes (trace w)"
    by (simp_all add: reads_only_def)
next
  assume a: "isl (fst (fetchGitHubDirectory cfg (type_name T) w))"
  obtain r1 w1 where l: "loadFromGitHub cfg T w = (r1, w1)"
    by (cases "loadFromGitHub cfg T w")
  note fb = loadFromGitHub_fallback [OF a l]
  from fb l show "mirror (snd (loadFromGitHub cfg T w)) = mirror w"
    "mirror_writes (trace (snd (loadFromGitHub cfg T w))) = mirror_writes (trace w)"
    by (simp_all add: reads_only_def)
next
  assume a: "isl (fst (fetchGitHubDirectory cfg (type_name T) w)) \<and>
    mirror_intact w T files \<and> mirror_items files \<noteq> []"
  obtain r1 w1 where l: "loadFromGitHub cfg T w = (r1, w1)"
    by (cases "loadFromGitHub cfg T w")
  have "fst (loadFromCacheDir T w) = Some (mirror_items files)"
    using a loadFromCacheDir_intact [of w T files] by simp
  then show "fst (loadFromGitHub cfg T w) = mirror_items files"
    using a l loadFromGitHub_fallback [of cfg T w r1 w1] by simp
next
  assume a: "\<not> isFetching st \<and> (cache_of T st = None \<or> isCacheStale t0 st) \<and>
    source (config st) = ''github'' \<and>
    isl (fst (fetchGitHubDirectory (config st) (type_name T) w)) \<and>
    mirror_intact w T files \<and> mirror_items files \<noteq> []"
  obtain r1 w1 where l: "loadFromGitHub (config st) T w = (r1, w1)"
    by (cases "loadFromGitHub (config st) T w")
  have "fst (loadFromCacheDir T w) = Some (mirror_items files)"
    using a loadFromCacheDir_intact [of w T files] by simp
  with a l have "r1 = mirror_items files"
    using loadFromGitHub_fallback [of "config st" T w r1 w1] by simp
  with l a have "loadWithCache_body T (config st) w = (Inr (mirror_items files), w1)"
    by (simp add: loadWithCache_body_def)
  with a show "fst (load T (t0, t1) (st, w)) = Inr (mirror_items files)"
    using load_fetch [of st T t0 w "mirror_items files" w1 t1] by simp
qed

theorem C2_witness:
  "mirror demo_offline_after = mirror demo_offline \<and>
   mirror_writes (trace demo_offline_after) = mirror_writes (trace demo_offline) \<and>
   mirror_items [(''a.json'', Json demo_a2)] = [demo_a2] \<and>
   fst (loadFromGitHub demo_config Steps demo_offline) = [demo_a2] \<and>
   fst (load Steps (400000, 400100) (demo_loaded, demo_offline)) = Inr [demo_a2]"
proof -
  have h: "config demo_loaded = demo_config" "\<not> isFetching demo_loaded"
    "isCacheStale 400000 demo_loaded" "source demo_config = ''github''"
    by (simp_all add: demo_defs isCacheStale_def default_config_def)
  have m: "mirror_intact demo_offline Steps [(''a.json'', Json demo_a2)]"
    "mirror_items [(''a.json'', Json demo_a2)] = [demo_a2]"
    by (simp_all add: mirror_intact_def mirror_items_def demo_defs endsWith_def)
  show ?thesis
    using h m demo_offline_listing demo_offline_load
      C2_mirror_written_only_on_remote_success [of demo_loaded Steps demo_offline 400000 400100
        "Inr [demo_a2]" demo_fallen_back demo_offline_after demo_config "[(''a.json'', Json demo_a2)]"]
    by simp
qed

section \<open>C3: one timestamp for both collection types\<close>

text \<open>
  Claim C3 says that each collection type's entry carries its own fetch timestamp, so
  that a load of \<open>T\<close> that refreshes leaves the staleness judgement of \<open>U\<close>'s entry
  unchanged. The module has one variable \<^verbatim>\<open>lastFetchTime\<close> for both. Here the
  workflows entry was fetched at time 0 and the clock is past the TTL of 300000 ms:
  a load of workflows at 400200 ms would fetch. But a load of steps refreshes the
  steps entry and stamps 400200 ms, and after it the same workflows entry, at the same
  400200 ms, is judged fresh.
\<close>

theorem C3_counterexample:
  "cache_of Workflows demo_stale = Some [demo_b] \<and>
   fst (loadWithCache_enter (cache_of Workflows demo_stale) 400200 demo_stale) = Proceed \<and>
   fst (snd (load Steps (400000, 400200) (demo_stale, demo_world))) =
     demo_stale\<lparr>stepsCache := Some [demo_a, demo_a2], lastFetchTime := 400200\<rparr> \<and>
   fst (loadWithCache_enter
         (cache_of Workflows (demo_stale\<lparr>stepsCache := Some [demo_a, demo_a2], lastFetchTime := 400200\<rparr>))
         400200
         (demo_stale\<lparr>stepsCache := Some [demo_a, demo_a2], lastFetchTime := 400200\<rparr>)) =
     Return [demo_b]"
  by (simp add: loader_defs demo_defs)

text \<open>
  Claim C3, amended. The module keeps one last-fetch timestamp, shared by both
  collection types, and staleness of either entry is decided against it. A load of
  \<open>T\<close> that refreshes \<open>T\<close>'s entry sets the shared timestamp to the time the load is
  done and leaves the cached sequence of the other type \<open>U\<close> unchanged; from then on
  every entry, \<open>U\<close>'s included, is served from the cache exactly while the clock is
  within one TTL of \<open>T\<close>'s refresh.
\<close>

theorem C3_shared_timestamp:
  assumes "\<not> isFetching st" and "cache_of T st = None \<or> isCacheStale t0 st"
    and "load T (t0, t1) (st, w) = (r, st', w')"
  shows "lastFetchTime st' = t1 \<and> config st' = config st \<and>
    (\<forall>U. U \<noteq> T \<longrightarrow> cache_of U st' = cache_of U st) \<and>
    (\<forall>now. isCacheStale now st' = (now - t1 > cacheTTL (config st))) \<and>
    (\<forall>U now. fst (loadWithCache_enter (cache_of U st') now st') =
       (case cache_of U st' of
          Some c \<Rightarrow> if now - t1 \<le> cacheTTL (config st) then Return c else Proceed
        | None \<Rightarrow> Proceed))"
proof -
  obtain items w1 where b: "loadWithCache_body T (config st) w = (Inr items, w1)"
    using loadWithCache_body_Inr [of T "config st" w]
    by (cases "loadWithCache_body T (config st) w") auto
  have st': "st' = set_cache T items (st\<lparr>lastFetchTime := t1, isFetching := False\<rparr>)"
    using assms load_fetch [OF assms(1) assms(2) b, of t1] by simp
  have ts: "lastFetchTime st' = t1" "config st' = config st" "\<not> isFetching st'"
    by (simp_all add: st')
  have frame: "\<forall>U. U \<noteq> T \<longrightarrow> cache_of U st' = cache_of U st"
    by (auto simp add: st') (case_tac U; simp)+
  have stale: "\<forall>now. isCacheStale now st' = (now - t1 > cacheTTL (config st))"
    using ts by (simp add: isCacheStale_def)
  have "\<forall>U now. fst (loadWithCache_enter (cache_of U st') now st') =
       (case cache_of U st' of
          Some c \<Rightarrow> if now - t1 \<le> cacheTTL (config st) then Return c else Proceed
        | None \<Rightarrow> Proceed)"
    using ts stale by (auto simp add: loadWithCache_enter_def Let_def split: option.splits)
  with ts frame stale show ?thesis by blast
qed

theorem C3_witness:
  "cache_of Workflows (demo_stale\<lparr>stepsCache := Some [demo_a, demo_a2], lastFetchTime := 400200\<rparr>) =
     cache_of Workflows demo_stale \<and>
   lastFetchTime (demo_stale\<lparr>stepsCache := Some [demo_a, demo_a2], lastFetchTime := 400200\<rparr>) = 400200 \<and>
   isCacheStale 700201 (demo_stale\<lparr>stepsCache := Some [demo_a, demo_a2], lastFetchTime := 400200\<rparr>) \<and>
   fst (loadWithCache_enter (Some [demo_b]) 700200
     (demo_stale\<lparr>stepsCache := Some [demo_a, demo_a2], lastFetchTime := 400200\<rparr>)) = Return [demo_b]"
proof -
  let ?st' = "demo_stale\<lparr>stepsCache := Some [demo_a, demo_a2], lastFetchTime := 400200\<rparr>"
  have h: "\<not> isFetching demo_stale" "cache_of Steps demo_stale = None \<or> isCacheStale 400000 demo_stale"
    by (simp_all add: demo_stale_def)
  have l: "load Steps (400000, 400200) (demo_stale, demo_world) = (Inr [demo_a, demo_a2], ?st', demo_mirrored)"
    by (simp add: loader_defs demo_defs)
  have c: "cache_of Workflows ?st' = Some [demo_b]" "cacheTTL (config demo_stale) = 300000"
    by (simp_all add: demo_defs default_config_def)
  from C3_shared_timestamp [OF h l] have
    "Workflows \<noteq> Steps \<longrightarrow> cache_of Workflows ?st' = cache_of Workflows demo_stale"
    "lastFetchTime ?st' = 400200"
    "isCacheStale 700201 ?st' = (700201 - 400200 > cacheTTL (config demo_stale))"
    "fst (loadWithCache_enter (cache_of Workflows ?st') 700200 ?st') =
       (case cache_of Workflows ?st' of
          Some c \<Rightarrow> if 700200 - 400200 \<le> cacheTTL (config demo_stale) then Return c else Proceed
        | None \<Rightarrow> Proceed)"
    by blast+
  then show ?thesis using c by simp
qed

section \<open>C4: the in-flight flag\<close>

text \<open>
  Claim C4. A load that arrives while the in-flight flag is set (a fetch for either
  collection type is in progress) does not block and performs no I/O: before its
  first \<^verbatim>\<open>await\<close> it returns the cached sequence of its type if there is one, else
  the empty sequence; the world and the fetches in flight are what they were. The
  flag is cleared on every exit of the load that set it, also when its body threw
  (\<open>r\<close> may be \<open>Inl\<close>). So, from the module's initial state and for every sequence of
  calls, completions, reconfigurations and cache resets, at most one fetch is in
  flight, and the flag is set exactly while one is.
\<close>

theorem C4_inflight_flag:
  "(isFetching st \<longrightarrow>
      fst (loadWithCache_enter (cache_of T st) now st) = Return (or_empty (cache_of T st)) \<and>
      load T (now, t) (st, w) =
        (Inr (or_empty (cache_of T st)), set_cache T (or_empty (cache_of T st)) st, w)) \<and>
   (isFetching (ms s) \<longrightarrow>
      step (CallLoad T now) s = s\<lparr>ms := set_cache T (or_empty (cache_of T (ms s))) (ms s)\<rparr>) \<and>
   \<not> isFetching (snd (loadWithCache_exit r t st)) \<and>
   (inflight s \<noteq> [] \<longrightarrow> \<not> isFetching (ms (step (Complete t) s))) \<and>
   single_flight (run acts (start c w))"
proof (intro conjI impI)
  assume f: "isFetching st"
  then show "fst (loadWithCache_enter (cache_of T st) now st) = Return (or_empty (cache_of T st))"
    by (auto simp add: loadWithCache_enter_def or_empty_def Let_def split: option.splits)
  from f show "load T (now, t) (st, w) =
      (Inr (or_empty (cache_of T st)), set_cache T (or_empty (cache_of T st)) st, w)"
    by (simp add: load_inflight or_empty_def)
next
  assume "isFetching (ms s)"
  then show "step (CallLoad T now) s = s\<lparr>ms := set_cache T (or_empty (cache_of T (ms s))) (ms s)\<rparr>"
    by (rule step_call_inflight)
next
  show "\<not> isFetching (snd (loadWithCache_exit r t st))"
    by (rule loadWithCache_exit_flag)
next
  assume "inflight s \<noteq> []"
  then obtain ty r' rest where "inflight s = (ty, r') # rest"
    by (cases "inflight s") auto
  then show "\<not> isFetching (ms (step (Complete t) s))"
    using loadWithCache_exit_flag [of r' t "ms s"]
    by (auto split: prod.splits sum.splits)
next
  show "single_flight (run acts (start c w))"
    by (simp add: run_single_flight start_single_flight)
qed

theorem C4_witness:
  "load Workflows (1100, 1150) (demo_busy, demo_world) =
     (Inr [], set_cache Workflows [] demo_busy, demo_world) \<and>
   step (CallLoad Workflows 1100) demo_inflight =
     demo_inflight\<lparr>ms := set_cache Workflows [] (ms demo_inflight)\<rparr> \<and>
   \<not> isFetching (ms (step (Complete 1200) demo_inflight)) \<and>
   single_flight
     (run [CallLoad Steps 1000, CallLoad Workflows 1100, Complete 1200] (start demo_config demo_world))"
proof -
  have busy: "isFetching demo_busy" "or_empty (cache_of Workflows demo_busy) = []"
    by (simp_all add: demo_busy_def or_empty_def initial_state_def)
  have fl: "isFetching (ms demo_inflight)" "or_empty (cache_of Workflows (ms demo_inflight)) = []"
    "inflight demo_inflight \<noteq> []"
    by (simp_all add: demo_inflight_eval demo_busy_def or_empty_def initial_state_def)
  show ?thesis
    using busy fl
      C4_inflight_flag [of demo_busy Workflows 1100 1150 demo_world demo_inflight
        "Inr []" "[CallLoad Steps 1000, CallLoad Workflows 1100, Complete 1200]" demo_config]
      C4_inflight_flag [of demo_busy Workflows 1100 1200 demo_world demo_inflight
        "Inr []" "[]" demo_config]
    by simp
qed

section \<open>C5: the mirror write\<close>

text \<open>
  Claim C5 says that a write failure for one item is logged, that item skipped, and
  the other items still written. The loop of \<^verbatim>\<open>saveToCacheDir\<close> stands inside the
  function's one \<^verbatim>\<open>try\<close>: the first \<^verbatim>\<open>writeFile\<close> that throws leaves the loop. Here the
  write of \<^verbatim>\<open>a.json\<close> fails, the write of \<^verbatim>\<open>b.json\<close> would not, and \<^verbatim>\<open>b.json\<close> is
  never attempted.
\<close>

theorem C5_counterexample:
  "\<not> fs_fails demo_failing (WriteFile Steps ''b.json'') \<and>
   mirror (saveToCacheDir Steps [demo_a, demo_b] demo_failing) Steps = Some [] \<and>
   trace (saveToCacheDir Steps [demo_a, demo_b] demo_failing) =
     [Fs (Mkdir Steps), Fs (WriteFile Steps ''a.json''), Console (FailedToSave Steps)]"
  by (simp add: loader_defs demo_defs)

text \<open>
  Claim C5, amended. For every collection of items passed to the mirror write, the
  items are written in order, each to \<^verbatim>\<open><id>.json\<close>, up to the first write that fails;
  that failure is logged, once, and ends the batch: the failing item and every item
  after it are not written. When the directory cannot be created, nothing is written
  and the failure is logged. No failure reaches the caller.
\<close>

theorem C5_mirror_write:
  "(fs_fails w (Mkdir ty) \<longrightarrow>
      mirror (saveToCacheDir ty items w) = mirror w \<and>
      trace (saveToCacheDir ty items w) = trace w @ [Fs (Mkdir ty), Console (FailedToSave ty)]) \<and>
   (\<not> fs_fails w (Mkdir ty) \<longrightarrow>
      mirror (saveToCacheDir ty items w) =
        (mirror w)(ty := Some (put_items (written_prefix w ty items) (dir_files (mirror w ty)))) \<and>
      trace (saveToCacheDir ty items w) =
        trace w @ Fs (Mkdir ty) #
          map (\<lambda>i. Fs (WriteFile ty (item_id i @ ''.json'')))
            (take (Suc (length (written_prefix w ty items))) items) @
          (if written_prefix w ty items = items then [] else [Console (FailedToSave ty)]))"
  by (rule saveToCacheDir_spec)

theorem C5_witness:
  "mirror (saveToCacheDir Steps [demo_b, demo_a, demo_a2] demo_failing) Steps =
     Some [(''b.json'', Json demo_b)] \<and>
   trace (saveToCacheDir Steps [demo_b, demo_a, demo_a2] demo_failing) =
     [Fs (Mkdir Steps), Fs (WriteFile Steps ''b.json''), Fs (WriteFile Steps ''a.json''),
      Console (FailedToSave Steps)] \<and>
   mirror (saveToCacheDir Steps [demo_b] demo_no_mkdir) = mirror demo_no_mkdir \<and>
   trace (saveToCacheDir Steps [demo_b] demo_no_mkdir) =
     [Fs (Mkdir Steps), Console (FailedToSave Steps)]"
proof -
  have h: "\<not> fs_fails demo_failing (Mkdir Steps)"
    "written_prefix demo_failing Steps [demo_b, demo_a, demo_a2] = [demo_b]"
    "dir_files (mirror demo_failing Steps) = []" "trace demo_failing = []"
    by (simp_all add: demo_defs written_prefix_def dir_files_def)
  have g: "fs_fails demo_no_mkdir (Mkdir Steps)" "trace demo_no_mkdir = []"
    by (simp_all add: demo_defs)
  show ?thesis
    using h g C5_mirror_write [of demo_failing Steps "[demo_b, demo_a, demo_a2]"]
      C5_mirror_write [of demo_no_mkdir Steps "[demo_b]"]
    by (simp add: put_items_def JSON_stringify_def demo_a_def demo_a2_def demo_b_def)
qed

section \<open>C6: the mirror read\<close>

text \<open>
  Claim C6 says that the mirror read skips an unparsable file, so that one malformed
  file among parsable ones does not make the read absent. The loop of
  \<^verbatim>\<open>loadFromCacheDir\<close> stands inside the function's one \<^verbatim>\<open>try\<close>, whose handler returns
  \<^verbatim>\<open>null\<close>: the first file that cannot be read or parsed ends the read. Here
  \<^verbatim>\<open>a.json\<close> parses, \<^verbatim>\<open>bad.json\<close> does not, and the read is absent.
\<close>

theorem C6_counterexample:
  "mirror_file_item demo_damaged Steps ''a.json'' = Some demo_a \<and>
   mirror_file_item demo_damaged Steps ''bad.json'' = None \<and>
   fst (loadFromCacheDir Steps demo_damaged) = None"
  by (simp add: loader_defs demo_defs mirror_file_item_def)

text \<open>
  Claim C6, amended. The mirror read returns absent exactly when the directory does
  not exist, or listing it fails, or one of its \<^verbatim>\<open>.json\<close> files cannot be read or does
  not parse, or it holds no \<^verbatim>\<open>.json\<close> file; otherwise it returns the parsed content of
  every \<^verbatim>\<open>.json\<close> file, in the order of the listing. (A file that is not named
  \<^verbatim>\<open>*.json\<close> is ignored.)
\<close>

theorem C6_mirror_read:
  "fst (loadFromCacheDir ty w) =
    (case mirror w ty of
       None \<Rightarrow> None
     | Some files \<Rightarrow>
         if fs_fails w (Readdir MirrorStore ty)
            \<or> (\<exists>f \<in> set (json_names files). mirror_file_item w ty f = None)
            \<or> json_names files = []
         then None
         else Some (List.map_filter (mirror_file_item w ty) (json_names files)))"
  by (rule loadFromCacheDir_spec)

theorem C6_witness:
  "fst (loadFromCacheDir Steps demo_mirrored) = Some [demo_a2] \<and>
   fst (loadFromCacheDir Workflows demo_mirrored) = None \<and>
   fst (loadFromCacheDir Steps demo_damaged) = None"
  using C6_mirror_read [of Steps demo_mirrored] C6_mirror_read [of Workflows demo_mirrored]
    C6_mirror_read [of Steps demo_damaged]
  by (simp add: demo_defs json_names_def mirror_file_item_def endsWith_def)

section \<open>C7: reconfiguration\<close>

text \<open>
  Claim C7 says that every field provided to the reconfiguration is applied,
  including a TTL of zero seconds or a cleared credential, and that the next load
  fetches again under the new configuration. \<^verbatim>\<open>updateConfig\<close> guards each assignment
  by the truthiness of the given value: a TTL of \<open>0\<close>, a \<^verbatim>\<open>null\<close> token and an empty
  token are falsy, and the old value stays. And \<^verbatim>\<open>updateConfig\<close> does not touch a fetch
  in flight: here the source is set to local while a fetch of the steps from the
  remote is in flight; when that fetch is done it stores its items and stamps the
  time, no fetch is in flight any more, and the next load of the steps is served
  these items from the cache, where the local source would give the bundled step.
\<close>

theorem C7_counterexample:
  "cacheTTL (config (updateConfig (no_change\<lparr>new_cacheTTL := Some 0\<rparr>) demo_loaded)) = 300000 \<and>
   token (config (updateConfig (no_change\<lparr>new_token := Some None\<rparr>) demo_secret)) = Some ''secret'' \<and>
   token (config (updateConfig (no_change\<lparr>new_token := Some (Some [])\<rparr>) demo_secret)) = Some ''secret'' \<and>
   inflight demo_reconfigured = [] \<and> isFetching (ms demo_reconfigured) = False \<and>
   source (config (ms demo_reconfigured)) = ''local'' \<and>
   fst (load Steps (1300, 1400) (ms demo_reconfigured, wd demo_reconfigured)) = Inr [demo_a, demo_a2] \<and>
   fst (loadWithCache_body Steps (config (ms demo_reconfigured)) (wd demo_reconfigured)) = Inr [demo_b]"
  by (simp add: updateConfig_def assign_ttl_def assign_token_def assign_string_def demo_defs
      demo_reconfigured_def run_def start_def loader_defs)

text \<open>
  Claim C7, amended. Every field provided with a truthy value (a non-empty string, a
  non-zero TTL in seconds, stored in milliseconds) is applied over the existing
  configuration, every field not provided is left untouched, and both cache entries
  and the fetch timestamp are cleared. When no fetch is in flight at the moment of
  the reconfiguration, the load that follows it fetches again under the new
  configuration: it returns what the source selected by the new configuration gives,
  stores it and stamps the time.
\<close>

theorem C7_updateConfig:
  "(\<forall>s. new_repo nc = Some s \<and> s \<noteq> [] \<longrightarrow> repo (config (updateConfig nc st)) = s) \<and>
   (new_repo nc = None \<longrightarrow> repo (config (updateConfig nc st)) = repo (config st)) \<and>
   (\<forall>s. new_branch nc = Some s \<and> s \<noteq> [] \<longrightarrow> branch (config (updateConfig nc st)) = s) \<and>
   (new_branch nc = None \<longrightarrow> branch (config (updateConfig nc st)) = branch (config st)) \<and>
   (\<forall>s. new_token nc = Some (Some s) \<and> s \<noteq> [] \<longrightarrow> token (config (updateConfig nc st)) = Some s) \<and>
   (new_token nc = None \<longrightarrow> token (config (updateConfig nc st)) = token (config st)) \<and>
   (\<forall>s. new_repoPath nc = Some s \<and> s \<noteq> [] \<longrightarrow> repoPath (config (updateConfig nc st)) = s) \<and>
   (new_repoPath nc = None \<longrightarrow> repoPath (config (updateConfig nc st)) = repoPath (config st)) \<and>
   (\<forall>n. new_cacheTTL nc = Some n \<and> n \<noteq> 0 \<longrightarrow> cacheTTL (config (updateConfig nc st)) = n * 1000) \<and>
   (new_cacheTTL nc = None \<longrightarrow> cacheTTL (config (updateConfig nc st)) = cacheTTL (config st)) \<and>
   (\<forall>s. new_source nc = Some s \<and> s \<noteq> [] \<longrightarrow> source (config (updateConfig nc st)) = s) \<and>
   (new_source nc = None \<longrightarrow> source (config (updateConfig nc st)) = source (config st)) \<and>
   stepsCache (updateConfig nc st) = None \<and> workflowsCache (updateConfig nc st) = None \<and>
   lastFetchTime (updateConfig nc st) = 0 \<and>
   (\<not> isFetching st \<and>
    loadWithCache_body T (config (updateConfig nc st)) w = (Inr items, w1) \<longrightarrow>
      load T (t0, t1) (updateConfig nc st, w) =
        (Inr items,
         set_cache T items ((updateConfig nc st)\<lparr>lastFetchTime := t1, isFetching := False\<rparr>), w1)) \<and>
   (inflight s = [] \<and> \<not> isFetching (ms s) \<and>
    loadWithCache_body T (config (updateConfig nc (ms s))) (wd s) = (Inr items, w1) \<longrightarrow>
      run [UpdateConfig nc, CallLoad T t0, Complete t1] s =
        s\<lparr>ms := set_cache T items ((updateConfig nc (ms s))\<lparr>lastFetchTime := t1, isFetching := False\<rparr>),
          wd := w1\<rparr>)"
proof -
  have fields:
    "repo (config (updateConfig nc st)) = assign_string (new_repo nc) (repo (config st))"
    "branch (config (updateConfig nc st)) = assign_string (new_branch nc) (branch (config st))"
    "token (config (updateConfig nc st)) = assign_token (new_token nc) (token (config st))"
    "repoPath (config (updateConfig nc st)) = assign_string (new_repoPath nc) (repoPath (config st))"
    "cacheTTL (config (updateConfig nc st)) = assign_ttl (new_cacheTTL nc) (cacheTTL (config st))"
    "source (config (updateConfig nc st)) = assign_string (new_source nc) (source (config st))"
    by (simp_all add: updateConfig_def)
  have refetch: "\<not> isFetching st \<and>
    loadWithCache_body T (config (updateConfig nc st)) w = (Inr items, w1) \<longrightarrow>
      load T (t0, t1) (updateConfig nc st, w) =
        (Inr items,
         set_cache T items ((updateConfig nc st)\<lparr>lastFetchTime := t1, isFetching := False\<rparr>), w1)"
    by (auto intro!: load_fetch simp add: updateConfig_sel)
  have follows: "inflight s = [] \<and> \<not> isFetching (ms s) \<and>
    loadWithCache_body T (config (updateConfig nc (ms s))) (wd s) = (Inr items, w1) \<longrightarrow>
      run [UpdateConfig nc, CallLoad T t0, Complete t1] s =
        s\<lparr>ms := set_cache T items ((updateConfig nc (ms s))\<lparr>lastFetchTime := t1, isFetching := False\<rparr>),
          wd := w1\<rparr>"
  proof
    assume a: "inflight s = [] \<and> \<not> isFetching (ms s) \<and>
      loadWithCache_body T (config (updateConfig nc (ms s))) (wd s) = (Inr items, w1)"
    let ?s1 = "step (UpdateConfig nc) s"
    let ?st' = "set_cache T items ((updateConfig nc (ms s))\<lparr>lastFetchTime := t1, isFetching := False\<rparr>)"
    have l: "load T (t0, t1) (ms ?s1, wd ?s1) = (Inr items, ?st', w1)"
      using a by (auto intro!: load_fetch simp add: updateConfig_sel)
    have "run [CallLoad T t0, Complete t1] ?s1 = ?s1\<lparr>ms := ?st', wd := w1\<rparr>"
      using a by (intro run_call_complete [OF _ _ l]) (simp_all add: updateConfig_sel)
    then show "run [UpdateConfig nc, CallLoad T t0, Complete t1] s = s\<lparr>ms := ?st', wd := w1\<rparr>"
      by (simp add: run_def)
  qed
  show ?thesis
    using refetch follows
    by (simp add: fields updateConfig_sel assign_string_simps assign_token_simps assign_ttl_simps)
qed

theorem C7_witness:
  "config (updateConfig demo_new_config demo_secret) =
     \<lparr>repo = ''acme/templates'', branch = ''main'', token = Some ''t0k'',
      repoPath = ''src/repository'', cacheTTL = 60000, source = ''local''\<rparr> \<and>
   stepsCache (updateConfig demo_new_config demo_secret) = None \<and>
   workflowsCache (updateConfig demo_new_config demo_secret) = None \<and>
   lastFetchTime (updateConfig demo_new_config demo_secret) = 0 \<and>
   fst (load Steps (5000, 5100) (updateConfig demo_new_config demo_secret, demo_mirrored)) = Inr [demo_b] \<and>
   stepsCache (ms (run [UpdateConfig demo_new_config, CallLoad Steps 5000, Complete 5100]
     \<lparr>ms = demo_secret, wd = demo_mirrored, inflight = []\<rparr>)) = Some [demo_b]"
proof -
  let ?st = "updateConfig demo_new_config demo_secret"
  let ?w1 = "demo_mirrored\<lparr>trace := trace demo_mirrored @
      [Fs (Readdir BundledStore Steps), Fs (ReadFile BundledStore Steps ''b.json'')]\<rparr>"
  have given: "new_repo demo_new_config = Some ''acme/templates''" "new_branch demo_new_config = None"
    "new_token demo_new_config = Some (Some ''t0k'')" "new_repoPath demo_new_config = None"
    "new_cacheTTL demo_new_config = Some 60" "new_source demo_new_config = Some ''local''"
    by (simp_all add: demo_new_config_def)
  have old: "branch (config demo_secret) = ''main''" "repoPath (config demo_secret) = ''src/repository''"
    "\<not> isFetching demo_secret"
    by (simp_all add: demo_defs default_config_def)
  have src: "source (config ?st) = ''local''"
    using given C7_updateConfig [of demo_new_config demo_secret] by simp
  have body: "loadWithCache_body Steps (config ?st) demo_mirrored = (Inr [demo_b], ?w1)"
    using src by (simp add: loader_defs demo_defs)
  have sys: "stepsCache (ms (run [UpdateConfig demo_new_config, CallLoad Steps 5000, Complete 5100]
      \<lparr>ms = demo_secret, wd = demo_mirrored, inflight = []\<rparr>)) = Some [demo_b]"
    using old body
      C7_updateConfig [of demo_new_config demo_secret Steps demo_mirrored "[demo_b]" ?w1 5000 5100
        "\<lparr>ms = demo_secret, wd = demo_mirrored, inflight = []\<rparr>"]
    by simp
  have c: "repo (config ?st) = ''acme/templates'' \<and> branch (config ?st) = ''main'' \<and>
      token (config ?st) = Some ''t0k'' \<and> repoPath (config ?st) = ''src/repository'' \<and>
      cacheTTL (config ?st) = 60000 \<and> source (config ?st) = ''local'' \<and>
      stepsCache ?st = None \<and> workflowsCache ?st = None \<and> lastFetchTime ?st = 0 \<and>
      load Steps (5000, 5100) (?st, demo_mirrored) =
        (Inr [demo_b], set_cache Steps [demo_b] (?st\<lparr>lastFetchTime := 5100, isFetching := False\<rparr>), ?w1)"
    using given old body
      C7_updateConfig [of demo_new_config demo_secret Steps demo_mirrored "[demo_b]" ?w1 5000 5100]
    by simp
  then have "config ?st = \<lparr>repo = ''acme/templates'', branch = ''main'', token = Some ''t0k'',
      repoPath = ''src/repository'', cacheTTL = 60000, source = ''local''\<rparr>"
    by (cases "config ?st") simp
  with c sys show ?thesis by simp
qed

section \<open>C8: a failed remote fetch stamps the time\<close>

text \<open>
  Claim C8. A load of \<open>T\<close> whose remote listing fails is served from the mirror, or
  else from the bundled defaults, stores what it was served as \<open>T\<close>'s cache entry and
  still sets the fetch timestamp to the time it is done. So no further load of \<open>T\<close>
  attempts the remote again until the TTL has elapsed from that failed attempt: each
  such load returns the same sequence and leaves state and world as they were. The
  same holds of every sequence of further loads of types whose cache entry exists.
\<close>

theorem C8_failed_fetch_stamps_the_time:
  assumes "\<not> isFetching st" and "cache_of T st = None \<or> isCacheStale t0 st"
    and "source (config st) = ''github''"
    and "isl (fst (fetchGitHubDirectory (config st) (type_name T) w))"
    and "load T (t0, t1) (st, w) = (r, st', w')"
  shows "r = Inr (case fst (loadFromCacheDir T w) of Some c \<Rightarrow> c | None \<Rightarrow> fst (loadFromLocal T w)) \<and>
    cache_of T st' = Some (case fst (loadFromCacheDir T w) of Some c \<Rightarrow> c | None \<Rightarrow> fst (loadFromLocal T w)) \<and>
    lastFetchTime st' = t1 \<and> \<not> isFetching st' \<and>
    (\<forall>t2 t3 w2. t2 - t1 \<le> cacheTTL (config st) \<longrightarrow>
       load T (t2, t3) (st', w2) = (r, st', w2)) \<and>
    (\<forall>calls w2. (\<forall>(U, t2, t3) \<in> set calls. cache_of U st' \<noteq> None \<and> t2 - t1 \<le> cacheTTL (config st)) \<longrightarrow>
       loads calls (st', w2) = (st', w2))"
proof -
  let ?fb = "case fst (loadFromCacheDir T w) of Some c \<Rightarrow> c | None \<Rightarrow> fst (loadFromLocal T w)"
  obtain r1 w1 where l: "loadFromGitHub (config st) T w = (r1, w1)"
    by (cases "loadFromGitHub (config st) T w")
  have r1: "r1 = ?fb"
    using loadFromGitHub_fallback [OF assms(4) l] by simp
  have body: "loadWithCache_body T (config st) w = (Inr ?fb, w1)"
    using l r1 assms(3) by (simp add: loadWithCache_body_def)
  have st': "st' = set_cache T ?fb (st\<lparr>lastFetchTime := t1, isFetching := False\<rparr>)" and r: "r = Inr ?fb"
    using load_fetch [OF assms(1) assms(2) body, of t1] assms(5) by simp_all
  have sel: "cache_of T st' = Some ?fb" "lastFetchTime st' = t1" "\<not> isFetching st'"
    "config st' = config st"
    by (simp_all add: st')
  have fresh: "\<not> isCacheStale t2 st'" if "t2 - t1 \<le> cacheTTL (config st)" for t2
    using that sel by (simp add: isCacheStale_def)
  have again: "\<forall>t2 t3 w2. t2 - t1 \<le> cacheTTL (config st) \<longrightarrow> load T (t2, t3) (st', w2) = (r, st', w2)"
    using fresh sel(1) r load_hit by blast
  have many: "\<forall>calls w2. (\<forall>(U, t2, t3) \<in> set calls. cache_of U st' \<noteq> None \<and> t2 - t1 \<le> cacheTTL (config st)) \<longrightarrow>
       loads calls (st', w2) = (st', w2)"
  proof (intro allI impI)
    fix calls :: "(ctype \<times> int \<times> int) list" and w2
    assume "\<forall>(U, t2, t3) \<in> set calls. cache_of U st' \<noteq> None \<and> t2 - t1 \<le> cacheTTL (config st)"
    then have "\<forall>(U, t2, t3) \<in> set calls. cache_of U st' \<noteq> None \<and> \<not> isCacheStale t2 st'"
      using fresh by auto
    then show "loads calls (st', w2) = (st', w2)" by (rule loads_hits)
  qed
  from r sel again many show ?thesis by blast
qed

theorem C8_witness:
  "lastFetchTime demo_fallen_back = 400100 \<and>
   cache_of Steps demo_fallen_back = Some [demo_a2] \<and>
   load Steps (700100, 700200) (demo_fallen_back, demo_offline_after) =
     (Inr [demo_a2], demo_fallen_back, demo_offline_after) \<and>
   loads [(Steps, 400100, 400150), (Steps, 500000, 500100), (Steps, 700100, 700200)]
     (demo_fallen_back, demo_world) = (demo_fallen_back, demo_world)"
proof -
  let ?calls = "[(Steps, 400100, 400150), (Steps, 500000, 500100), (Steps, 700100, 700200)]
    :: (ctype \<times> int \<times> int) list"
  have h: "\<not> isFetching demo_loaded" "cache_of Steps demo_loaded = None \<or> isCacheStale 400000 demo_loaded"
    "source (config demo_loaded) = ''github''"
    "isl (fst (fetchGitHubDirectory (config demo_loaded) (type_name Steps) demo_offline))"
    using demo_offline_listing
    by (simp_all add: demo_loaded_def demo_config_def isCacheStale_def default_config_def)
  note c8 = C8_failed_fetch_stamps_the_time [OF h demo_offline_load]
  have ttl: "cacheTTL (config demo_loaded) = 300000"
    by (simp add: demo_loaded_def demo_config_def default_config_def)
  have entry: "cache_of Steps demo_fallen_back \<noteq> None"
    by (simp add: demo_fallen_back_def)
  from c8 have "lastFetchTime demo_fallen_back = 400100"
    by blast
  moreover from c8 have "cache_of Steps demo_fallen_back = Some [demo_a2]"
    by (simp add: demo_offline_mirror_read)
  moreover from c8 ttl
  have "load Steps (700100, 700200) (demo_fallen_back, demo_offline_after) =
      (Inr [demo_a2], demo_fallen_back, demo_offline_after)"
    by simp
  moreover from c8
  have "(\<forall>(U, t2, t3) \<in> set ?calls.
        cache_of U demo_fallen_back \<noteq> None \<and> t2 - 400100 \<le> cacheTTL (config demo_loaded)) \<longrightarrow>
      loads ?calls (demo_fallen_back, demo_world) = (demo_fallen_back, demo_world)"
    by blast
  with ttl entry
  have "loads ?calls (demo_fallen_back, demo_world) = (demo_fallen_back, demo_world)"
    by simp
  ultimately show ?thesis by blast
qed

section \<open>C9: a TTL of zero\<close>

text \<open>
  Claim C9 says that with a TTL of zero every load with a populated cache entry
  refetches, also at the very instant of the last fetch. The code compares with a
  strict \<^verbatim>\<open>>\<close>: at the millisecond of the last fetch the difference is \<open>0\<close>, which is
  not greater than the TTL, and the cache is served. Here the entry holds one item,
  the remote would give two, and the load at 1200 ms returns the one item and leaves
  state and world as they were.
\<close>

theorem C9_counterexample:
  "cacheTTL (config demo_ttl0) = 0 \<and> cache_of Steps demo_ttl0 = Some [demo_a] \<and>
   \<not> isCacheStale 1200 demo_ttl0 \<and>
   load Steps (1200, 1300) (demo_ttl0, demo_world) = (Inr [demo_a], demo_ttl0, demo_world) \<and>
   fst (loadWithCache_body Steps (config demo_ttl0) demo_world) = Inr [demo_a, demo_a2]"
  by (simp add: loader_defs demo_defs)

text \<open>
  Claim C9, amended. When the configured TTL is zero, the cache is stale exactly when
  the clock reads later than the last fetch timestamp. A load with a populated cache
  entry then refetches from the selected source, provided no fetch is in flight: it
  returns what the source gives, stores it and stamps the completion time. A load at
  the millisecond of the last fetch (or with a clock that reads earlier) is served
  from the cache, without I/O.
\<close>

theorem C9_ttl_zero:
  assumes "cacheTTL (config st) = 0"
  shows "isCacheStale now st = (lastFetchTime st < now) \<and>
    (cache_of T st = Some xs \<and> \<not> isFetching st \<and> lastFetchTime st < now \<and>
     loadWithCache_body T (config st) w = (Inr items, w1) \<longrightarrow>
       load T (now, t) (st, w) =
         (Inr items, set_cache T items (st\<lparr>lastFetchTime := t, isFetching := False\<rparr>), w1)) \<and>
    (cache_of T st = Some xs \<and> now \<le> lastFetchTime st \<longrightarrow>
       load T (now, t) (st, w) = (Inr xs, st, w))"
proof -
  have stale: "isCacheStale now st = (lastFetchTime st < now)"
    using assms by (auto simp add: isCacheStale_def)
  show ?thesis
    using stale by (auto simp add: load_fetch load_hit)
qed

theorem C9_witness:
  "isCacheStale 1201 demo_ttl0 \<and>
   load Steps (1201, 1300) (demo_ttl0, demo_world) =
     (Inr [demo_a, demo_a2],
      set_cache Steps [demo_a, demo_a2] (demo_ttl0\<lparr>lastFetchTime := 1300, isFetching := False\<rparr>),
      demo_mirrored) \<and>
   load Steps (1200, 1300) (demo_ttl0, demo_world) = (Inr [demo_a], demo_ttl0, demo_world)"
proof -
  have h: "cacheTTL (config demo_ttl0) = 0" "lastFetchTime demo_ttl0 = 1200"
    "cache_of Steps demo_ttl0 = Some [demo_a]" "\<not> isFetching demo_ttl0"
    by (simp_all add: demo_ttl0_def)
  have b: "loadWithCache_body Steps (config demo_ttl0) demo_world = (Inr [demo_a, demo_a2], demo_mirrored)"
    by (simp add: loader_defs demo_defs)
  show ?thesis
    using h b
      C9_ttl_zero [of demo_ttl0 1201 Steps "[demo_a]" demo_world "[demo_a, demo_a2]" demo_mirrored 1300]
      C9_ttl_zero [of demo_ttl0 1200 Steps "[demo_a]" demo_world "[demo_a, demo_a2]" demo_mirrored 1300]
    by simp
qed

section \<open>C10: items that share an id\<close>



end
